theory Spec2Isabelle
  imports Main "HOL-Library.AList" "HOL-Library.List_Lexorder" "HOL-Library.Char_ord"
begin

section \<open>Objects, prompts and the oracle\<close>

text \<open>
  The resolvers of \<^verbatim>\<open>drizzle-kit/src/cli/commands/migrate.ts\<close> work on arrays of
  JavaScript objects. An element of type \<open>'r\<close> is an object reference: equality on \<open>'r\<close>
  is JavaScript's strict equality on objects (identity), which is what
  \<^verbatim>\<open>Array.prototype.indexOf\<close> uses. The fields of an object are read through a
  heap \<open>'r \<Rightarrow> NamedWithSchema\<close>; two different references may carry equal fields.
  The field \<open>schema\<close> is declared a string, and the code also guards against a missing
  one (\<^verbatim>\<open>!data.from.schema\<close>, \<^verbatim>\<open>data.from.schema || 'public'\<close>): \<open>None\<close> is
  \<^verbatim>\<open>undefined\<close>.
\<close>

record NamedWithSchema =
  name :: string
  schema :: "string option"

text \<open>\<^verbatim>\<open>!s\<close> on a string that may be undefined.\<close>

definition falsy :: "string option \<Rightarrow> bool" where
  "falsy s = (case s of None \<Rightarrow> True | Some v \<Rightarrow> v = [])"

text \<open>\<^verbatim>\<open>s || d\<close> on a string that may be undefined.\<close>

definition orElse :: "string option \<Rightarrow> string \<Rightarrow> string" where
  "orElse s d = (if falsy s then d else the s)"

text \<open>\<^verbatim>\<open>RenamePropmtItem<T> = { from: T, to: T }\<close> (from \<^verbatim>\<open>../views\<close>).\<close>

record 'r RenamePropmtItem =
  item_from :: 'r
  item_to :: 'r

text \<open>
  An element of \<^verbatim>\<open>promptData: (RenamePropmtItem<T> | T)[]\<close>. The type guard
  \<^verbatim>\<open>isRenamePromptItem\<close> tells the two alternatives apart; it is the case
  distinction of this datatype.
\<close>

datatype 'r PromptData = Plain 'r | Rename "'r RenamePropmtItem"

datatype EntityKind = Table | Enum | Sequence

text \<open>The three prompts the resolvers hand to \<^verbatim>\<open>render\<close>, with their arguments.\<close>

datatype 'r Prompt =
    ResolveColumnSelect string 'r "'r PromptData list"
  | ResolveSelect 'r "'r PromptData list" EntityKind
  | ResolveSchemasSelect 'r "'r PromptData list"

text \<open>The \<^verbatim>\<open>{ status, data }\<close> that \<^verbatim>\<open>render\<close> resolves to.\<close>

datatype 'r RenderResult = Aborted | Submitted "'r PromptData"

text \<open>
  The terminal is an oracle: a function from everything shown and answered so far, and the
  prompt shown now, to the answer. The process keeps the log of its interactions, oldest
  first; \<open>render\<close> asks the oracle and extends the log.
\<close>

type_synonym 'r Interaction = "'r Prompt \<times> 'r RenderResult"

type_synonym 'r Oracle = "'r Interaction list \<Rightarrow> 'r Prompt \<Rightarrow> 'r RenderResult"

definition render :: "'r Oracle \<Rightarrow> 'r Prompt \<Rightarrow> 'r Interaction list
    \<Rightarrow> 'r RenderResult \<times> 'r Interaction list" where
  "render orc p log = (let a = orc log p in (a, log @ [(p, a)]))"

text \<open>\<^verbatim>\<open>process.exit(code)\<close> ends the process: nothing after it runs.\<close>

datatype Exit = ProcessExit nat

section \<open>Arrays\<close>

text \<open>\<^verbatim>\<open>arr.indexOf(x)\<close>: the first index holding \<open>x\<close>, or \<open>-1\<close>.\<close>

fun indexOf :: "'a list \<Rightarrow> 'a \<Rightarrow> int" where
  "indexOf [] x = - 1"
| "indexOf (y # ys) x =
     (if y = x then 0 else (let i = indexOf ys x in if i < 0 then - 1 else i + 1))"

text \<open>
  \<^verbatim>\<open>delete arr[i]\<close> leaves a hole at index \<open>i\<close> (\<open>None\<close>); at \<open>-1\<close>, or beyond the
  end, there is no element to delete and the array is unchanged.
\<close>

definition delete_index :: "'a option list \<Rightarrow> int \<Rightarrow> 'a option list" where
  "delete_index arr i = (if 0 \<le> i \<and> nat i < length arr then arr[nat i := None] else arr)"

text \<open>
  \<^verbatim>\<open>arr.filter(Boolean)\<close> on an array of objects with holes: \<^verbatim>\<open>filter\<close> skips the
  holes, and every object is truthy.
\<close>

definition filter_Boolean :: "'a option list \<Rightarrow> 'a list" where
  "filter_Boolean arr = concat (map (\<lambda>e. case e of None \<Rightarrow> [] | Some x \<Rightarrow> [x]) arr)"

text \<open>
  The two statements \<^verbatim>\<open>delete leftMissing[leftMissing.indexOf(data.from)];
  leftMissing = leftMissing.filter(Boolean)\<close>.
\<close>

definition delete_and_compact :: "'r list \<Rightarrow> 'r \<Rightarrow> 'r list" where
  "delete_and_compact leftMissing x =
     filter_Boolean (delete_index (map Some leftMissing) (indexOf leftMissing x))"

section \<open>The resolvers\<close>

record 'r ResolverOutput =
  created :: "'r list"
  renamed :: "'r RenamePropmtItem list"
  deleted :: "'r list"

record Moved =
  moved_name :: string
  schemaFrom :: string
  schemaTo :: string

record 'r ResolverOutputWithMoved = "'r ResolverOutput" +
  moved :: "Moved list"

text \<open>
  The state of a loop is the \<^verbatim>\<open>result\<close> under construction and \<^verbatim>\<open>leftMissing\<close>.
  Each resolver is its loop body, the \<^verbatim>\<open>do ... while (index < newItems.length)\<close>
  around it, and the function with the fast path in front. A loop starts at index 0 behind
  the fast path, where the array of new entities is not empty, and goes on only while
  \<open>index + 1\<close> is below its length: every \<open>newItems ! index\<close> is inside the array. The
  lines the resolvers print with \<^verbatim>\<open>console.log\<close> and \<^verbatim>\<open>console.error\<close> are
  left out.
\<close>

subsection \<open>\<^verbatim>\<open>promptColumnsConflicts\<close>\<close>

definition promptColumnsBody :: "'r Oracle \<Rightarrow> string \<Rightarrow> 'r
    \<Rightarrow> 'r ResolverOutput \<times> 'r list \<Rightarrow> 'r Interaction list
    \<Rightarrow> (Exit + 'r ResolverOutput \<times> 'r list) \<times> 'r Interaction list" where
  "promptColumnsBody orc tableName created_item st log =
     (let result = fst st; leftMissing = snd st;
          renames = map (\<lambda>it. \<lparr>item_from = it, item_to = created_item\<rparr>) leftMissing;
          promptData = Plain created_item # map Rename renames;
          answer = render orc (ResolveColumnSelect tableName created_item promptData) log
      in case fst answer of
           Aborted \<Rightarrow> (Inl (ProcessExit 1), snd answer)
         | Submitted (Rename d) \<Rightarrow>
             (Inr (result\<lparr>renamed := renamed result @ [d]\<rparr>,
                   delete_and_compact leftMissing (item_from d)), snd answer)
         | Submitted (Plain _) \<Rightarrow>
             (Inr (result\<lparr>created := created result @ [created_item]\<rparr>, leftMissing),
              snd answer))"

function promptColumnsLoop :: "'r Oracle \<Rightarrow> string \<Rightarrow> 'r list \<Rightarrow> nat
    \<Rightarrow> 'r ResolverOutput \<times> 'r list \<Rightarrow> 'r Interaction list
    \<Rightarrow> (Exit + 'r ResolverOutput \<times> 'r list) \<times> 'r Interaction list" where
  "promptColumnsLoop orc tableName newColumns index st log =
     (case promptColumnsBody orc tableName (newColumns ! index) st log of
        (Inl e, log') \<Rightarrow> (Inl e, log')
      | (Inr st', log') \<Rightarrow>
          if index + 1 < length newColumns
          then promptColumnsLoop orc tableName newColumns (index + 1) st' log'
          else (Inr st', log'))"
  by pat_completeness auto
termination
  by (relation "measure (\<lambda>(orc, tableName, newColumns, index, st, log). length newColumns - index)")
    auto

declare promptColumnsLoop.simps [simp del]

definition promptColumnsConflicts :: "'r Oracle \<Rightarrow> string \<Rightarrow> 'r list \<Rightarrow> 'r list
    \<Rightarrow> 'r Interaction list \<Rightarrow> (Exit + 'r ResolverOutput) \<times> 'r Interaction list" where
  "promptColumnsConflicts orc tableName newColumns missingColumns log =
     (if length newColumns = 0 \<or> length missingColumns = 0
      then (Inr \<lparr>created = newColumns, renamed = [], deleted = missingColumns\<rparr>, log)
      else
        case promptColumnsLoop orc tableName newColumns 0
               (\<lparr>created = [], renamed = [], deleted = []\<rparr>, missingColumns) log of
          (Inl e, log') \<Rightarrow> (Inl e, log')
        | (Inr (result, leftMissing), log') \<Rightarrow>
            (Inr (result\<lparr>deleted := deleted result @ leftMissing\<rparr>), log'))"

subsection \<open>\<^verbatim>\<open>promptNamedWithSchemasConflict\<close>\<close>

definition promptNamedWithSchemasBody :: "'r Oracle \<Rightarrow> ('r \<Rightarrow> NamedWithSchema) \<Rightarrow> EntityKind
    \<Rightarrow> 'r \<Rightarrow> 'r ResolverOutputWithMoved \<times> 'r list \<Rightarrow> 'r Interaction list
    \<Rightarrow> (Exit + 'r ResolverOutputWithMoved \<times> 'r list) \<times> 'r Interaction list" where
  "promptNamedWithSchemasBody orc heap entity created_item st log =
     (let result = fst st; leftMissing = snd st;
          renames = map (\<lambda>it. \<lparr>item_from = it, item_to = created_item\<rparr>) leftMissing;
          promptData = Plain created_item # map Rename renames;
          answer = render orc (ResolveSelect created_item promptData entity) log
      in case fst answer of
           Aborted \<Rightarrow> (Inl (ProcessExit 1), snd answer)
         | Submitted (Rename d) \<Rightarrow>
             (let data_from = heap (item_from d); data_to = heap (item_to d);
                  result1 = (if name data_from \<noteq> name data_to
                             then result\<lparr>renamed := renamed result @ [d]\<rparr> else result);
                  result2 = (if schema data_from \<noteq> schema data_to
                             then result1\<lparr>moved := moved result1 @
                               [\<lparr>moved_name = name data_from,
                                 schemaFrom = orElse (schema data_from) ''public'',
                                 schemaTo = orElse (schema data_to) ''public''\<rparr>]\<rparr>
                             else result1)
              in (Inr (result2, delete_and_compact leftMissing (item_from d)), snd answer))
         | Submitted (Plain _) \<Rightarrow>
             (Inr (result\<lparr>created := created result @ [created_item]\<rparr>, leftMissing),
              snd answer))"

function promptNamedWithSchemasLoop :: "'r Oracle \<Rightarrow> ('r \<Rightarrow> NamedWithSchema) \<Rightarrow> EntityKind
    \<Rightarrow> 'r list \<Rightarrow> nat \<Rightarrow> 'r ResolverOutputWithMoved \<times> 'r list \<Rightarrow> 'r Interaction list
    \<Rightarrow> (Exit + 'r ResolverOutputWithMoved \<times> 'r list) \<times> 'r Interaction list" where
  "promptNamedWithSchemasLoop orc heap entity newItems index st log =
     (case promptNamedWithSchemasBody orc heap entity (newItems ! index) st log of
        (Inl e, log') \<Rightarrow> (Inl e, log')
      | (Inr st', log') \<Rightarrow>
          if index + 1 < length newItems
          then promptNamedWithSchemasLoop orc heap entity newItems (index + 1) st' log'
          else (Inr st', log'))"
  by pat_completeness auto
termination
  by (relation "measure (\<lambda>(orc, heap, entity, newItems, index, st, log). length newItems - index)")
    auto

declare promptNamedWithSchemasLoop.simps [simp del]

definition promptNamedWithSchemasConflict :: "'r Oracle \<Rightarrow> ('r \<Rightarrow> NamedWithSchema)
    \<Rightarrow> 'r list \<Rightarrow> 'r list \<Rightarrow> EntityKind \<Rightarrow> 'r Interaction list
    \<Rightarrow> (Exit + 'r ResolverOutputWithMoved) \<times> 'r Interaction list" where
  "promptNamedWithSchemasConflict orc heap newItems missingItems entity log =
     (if length missingItems = 0 \<or> length newItems = 0
      then (Inr \<lparr>created = newItems, renamed = [], deleted = missingItems, moved = []\<rparr>, log)
      else
        case promptNamedWithSchemasLoop orc heap entity newItems 0
               (\<lparr>created = [], renamed = [], deleted = [], moved = []\<rparr>, missingItems) log of
          (Inl e, log') \<Rightarrow> (Inl e, log')
        | (Inr (result, leftMissing), log') \<Rightarrow>
            (Inr (result\<lparr>deleted := deleted result @ leftMissing\<rparr>), log'))"

subsection \<open>\<^verbatim>\<open>promptSchemasConflict\<close>\<close>

definition promptSchemasBody :: "'r Oracle \<Rightarrow> 'r
    \<Rightarrow> 'r ResolverOutput \<times> 'r list \<Rightarrow> 'r Interaction list
    \<Rightarrow> (Exit + 'r ResolverOutput \<times> 'r list) \<times> 'r Interaction list" where
  "promptSchemasBody orc created_item st log =
     (let result = fst st; leftMissing = snd st;
          renames = map (\<lambda>it. \<lparr>item_from = it, item_to = created_item\<rparr>) leftMissing;
          promptData = Plain created_item # map Rename renames;
          answer = render orc (ResolveSchemasSelect created_item promptData) log
      in case fst answer of
           Aborted \<Rightarrow> (Inl (ProcessExit 1), snd answer)
         | Submitted (Rename d) \<Rightarrow>
             (Inr (result\<lparr>renamed := renamed result @ [d]\<rparr>,
                   delete_and_compact leftMissing (item_from d)), snd answer)
         | Submitted (Plain _) \<Rightarrow>
             (Inr (result\<lparr>created := created result @ [created_item]\<rparr>, leftMissing),
              snd answer))"

function promptSchemasLoop :: "'r Oracle \<Rightarrow> 'r list \<Rightarrow> nat
    \<Rightarrow> 'r ResolverOutput \<times> 'r list \<Rightarrow> 'r Interaction list
    \<Rightarrow> (Exit + 'r ResolverOutput \<times> 'r list) \<times> 'r Interaction list" where
  "promptSchemasLoop orc newSchemas index st log =
     (case promptSchemasBody orc (newSchemas ! index) st log of
        (Inl e, log') \<Rightarrow> (Inl e, log')
      | (Inr st', log') \<Rightarrow>
          if index + 1 < length newSchemas
          then promptSchemasLoop orc newSchemas (index + 1) st' log'
          else (Inr st', log'))"
  by pat_completeness auto
termination
  by (relation "measure (\<lambda>(orc, newSchemas, index, st, log). length newSchemas - index)") auto

declare promptSchemasLoop.simps [simp del]

definition promptSchemasConflict :: "'r Oracle \<Rightarrow> 'r list \<Rightarrow> 'r list
    \<Rightarrow> 'r Interaction list \<Rightarrow> (Exit + 'r ResolverOutput) \<times> 'r Interaction list" where
  "promptSchemasConflict orc newSchemas missingSchemas log =
     (if length missingSchemas = 0 \<or> length newSchemas = 0
      then (Inr \<lparr>created = newSchemas, renamed = [], deleted = missingSchemas\<rparr>, log)
      else
        case promptSchemasLoop orc newSchemas 0
               (\<lparr>created = [], renamed = [], deleted = []\<rparr>, missingSchemas) log of
          (Inl e, log') \<Rightarrow> (Inl e, log')
        | (Inr (result, leftMissing), log') \<Rightarrow>
            (Inr (result\<lparr>deleted := deleted result @ leftMissing\<rparr>), log'))"

section \<open>The out folder and the console\<close>

text \<open>
  The file system is modelled as far as \<^verbatim>\<open>writeResult\<close> and
  \<^verbatim>\<open>embeddedMigrations\<close> touch it: the content of \<^verbatim>\<open>outFolder\<close>, a list of
  named entries, or \<open>None\<close> when the folder does not exist. An entry is a file with its
  content or a directory with its files. Paths are a name inside \<^verbatim>\<open>outFolder\<close>, or a
  name inside a directory of \<^verbatim>\<open>outFolder\<close>; the tag of a migration is taken to be a
  single path segment.
\<close>

datatype Node = File string | Directory "(string \<times> string) list"

text \<open>What a call into \<^verbatim>\<open>fs\<close> throws; \<open>Thrown\<close> is any other error.\<close>

datatype Exception = ENOENT | EEXIST | EISDIR | ENOTDIR | Thrown string

text \<open>
  What \<^verbatim>\<open>writeResult\<close> and the commands print, one constructor for each statement
  that prints (the lines of the resolvers are not recorded):
  \<^item> \<open>SchemaView\<close>: \<^verbatim>\<open>console.log(schema(cur))\<close>;
  \<^item> \<open>MigrationsJsUpdated\<close>: \<^verbatim>\<open>render(`[...] ${outFolder}/migrations.js file updated`)\<close>;
  \<^item> \<open>NoSchemaChanges\<close>: \<^verbatim>\<open>console.log('No schema changes, nothing to migrate ...')\<close>;
  \<^item> \<open>CustomFilePrepared\<close>:
    \<^verbatim>\<open>console.log('Prepared empty file for your custom SQL migration!')\<close>;
  \<^item> \<open>MigrationFileWritten\<close>: \<^verbatim>\<open>render(`[...] Your SQL migration file ...`)\<close>, with
    \<^verbatim>\<open>outFolder\<close> and the tag;
  \<^item> \<open>ErrorLogged\<close>: \<^verbatim>\<open>console.error(e)\<close>.
\<close>

datatype Output =
    SchemaView string
  | MigrationsJsUpdated string
  | NoSchemaChanges
  | CustomFilePrepared
  | MigrationFileWritten string string
  | ErrorLogged Exception

record 'r World =
  folder :: "(string \<times> Node) list option"
  console :: "Output list"
  prompts :: "'r Interaction list"

text \<open>
  A statement that may throw takes the world and returns the value or the exception, and
  the world it leaves.
\<close>

type_synonym ('a, 'r) IO = "'r World \<Rightarrow> (Exception + 'a) \<times> 'r World"

definition io_return :: "'a \<Rightarrow> ('a, 'r) IO" where
  "io_return a w = (Inr a, w)"

definition io_bind :: "('a, 'r) IO \<Rightarrow> ('a \<Rightarrow> ('b, 'r) IO) \<Rightarrow> ('b, 'r) IO" where
  "io_bind m f w = (case m w of (Inl e, w') \<Rightarrow> (Inl e, w') | (Inr a, w') \<Rightarrow> f a w')"

definition print :: "Output \<Rightarrow> (unit, 'r) IO" where
  "print line w = (Inr (), w\<lparr>console := console w @ [line]\<rparr>)"

text \<open>
  \<^verbatim>\<open>readdirSync(outFolder)\<close>: the names of the entries, sorted byte by byte, which is
  the order Node's directory scan returns them in.
\<close>

definition readdirSync :: "(string list, 'r) IO" where
  "readdirSync w =
     (case folder w of None \<Rightarrow> (Inl ENOENT, w) | Some es \<Rightarrow> (Inr (sort (map fst es)), w))"

text \<open>\<^verbatim>\<open>lstatSync(join(outFolder, it)).isDirectory()\<close>.\<close>

definition lstatSync_isDirectory :: "string \<Rightarrow> (bool, 'r) IO" where
  "lstatSync_isDirectory it w =
     (case folder w of
        None \<Rightarrow> (Inl ENOENT, w)
      | Some es \<Rightarrow>
          (case map_of es it of
             None \<Rightarrow> (Inl ENOENT, w)
           | Some (File content) \<Rightarrow> (Inr False, w)
           | Some (Directory files) \<Rightarrow> (Inr True, w)))"

text \<open>\<^verbatim>\<open>names.filter((it) => lstatSync(join(outFolder, it)).isDirectory())\<close>.\<close>

fun filter_isDirectory :: "string list \<Rightarrow> (string list, 'r) IO" where
  "filter_isDirectory [] = io_return []"
| "filter_isDirectory (it # its) =
     io_bind (lstatSync_isDirectory it) (\<lambda>keep.
     io_bind (filter_isDirectory its) (\<lambda>rest.
     io_return (if keep then it # rest else rest)))"

text \<open>\<^verbatim>\<open>mkdirSync(join(outFolder, tag), { recursive: true })\<close>.\<close>

definition mkdirSync_recursive :: "string \<Rightarrow> (unit, 'r) IO" where
  "mkdirSync_recursive tag w =
     (case folder w of
        None \<Rightarrow> (Inr (), w\<lparr>folder := Some [(tag, Directory [])]\<rparr>)
      | Some es \<Rightarrow>
          (case map_of es tag of
             None \<Rightarrow> (Inr (), w\<lparr>folder := Some (es @ [(tag, Directory [])])\<rparr>)
           | Some (File content) \<Rightarrow> (Inl EEXIST, w)
           | Some (Directory files) \<Rightarrow> (Inr (), w)))"

text \<open>\<^verbatim>\<open>writeFileSync(join(join(outFolder, tag), file), data)\<close>.\<close>

definition writeFileSync_in :: "string \<Rightarrow> string \<Rightarrow> string \<Rightarrow> (unit, 'r) IO" where
  "writeFileSync_in tag file data w =
     (case folder w of
        None \<Rightarrow> (Inl ENOENT, w)
      | Some es \<Rightarrow>
          (case map_of es tag of
             None \<Rightarrow> (Inl ENOENT, w)
           | Some (File content) \<Rightarrow> (Inl ENOTDIR, w)
           | Some (Directory files) \<Rightarrow>
               (Inr (), w\<lparr>folder :=
                  Some (AList.update tag (Directory (AList.update file data files)) es)\<rparr>)))"

text \<open>\<^verbatim>\<open>writeFileSync(`${outFolder}/${file}`, data)\<close>.\<close>

definition writeFileSync :: "string \<Rightarrow> string \<Rightarrow> (unit, 'r) IO" where
  "writeFileSync file data w =
     (case folder w of
        None \<Rightarrow> (Inl ENOENT, w)
      | Some es \<Rightarrow>
          (case map_of es file of
             Some (Directory files) \<Rightarrow> (Inl EISDIR, w)
           | _ \<Rightarrow> (Inr (), w\<lparr>folder := Some (AList.update file (File data) es)\<rparr>)))"

section \<open>Strings\<close>

text \<open>\<^verbatim>\<open>s.slice(a, b)\<close> for \<open>0 \<le> a \<le> b\<close>.\<close>

definition slice :: "string \<Rightarrow> nat \<Rightarrow> nat \<Rightarrow> string" where
  "slice s a b = take (b - a) (drop a s)"

text \<open>\<^verbatim>\<open>s.padStart(n, c)\<close> for a one-character \<open>c\<close>.\<close>

definition padStart :: "string \<Rightarrow> nat \<Rightarrow> char \<Rightarrow> string" where
  "padStart s n c = replicate (n - length s) c @ s"

text \<open>\<^verbatim>\<open>xs.join(sep)\<close>.\<close>

fun join :: "string list \<Rightarrow> string \<Rightarrow> string" where
  "join [] sep = []"
| "join [x] sep = x"
| "join (x # y # ys) sep = x @ sep @ join (y # ys) sep"

text \<open>
  A number in a template literal: the decimal digits of an index, and of a time value,
  which is an integer or \<^verbatim>\<open>NaN\<close> (\<open>None\<close>).
\<close>

fun show_nat :: "nat \<Rightarrow> string" where
  "show_nat n =
     (if n < 10 then [''0123456789'' ! n]
      else show_nat (n div 10) @ [''0123456789'' ! (n mod 10)])"

declare show_nat.simps [simp del]

definition show_millis :: "int option \<Rightarrow> string" where
  "show_millis millis =
     (case millis of
        None \<Rightarrow> ''NaN''
      | Some n \<Rightarrow> if n < 0 then ''-'' @ show_nat (nat (- n)) else show_nat (nat n))"

section \<open>The journal builder\<close>

text \<open>
  \<^verbatim>\<open>timestampToMillis\<close>. The parameter \<open>date_millis\<close> is \<^verbatim>\<open>+new Date(isoString)\<close>,
  the time value of JavaScript's date parser, \<open>None\<close> for \<^verbatim>\<open>NaN\<close>.
\<close>

definition timestampToMillis :: "(string \<Rightarrow> int option) \<Rightarrow> string \<Rightarrow> int option" where
  "timestampToMillis date_millis timestamp =
     (let year = slice timestamp 0 4;
          month = slice timestamp 4 6;
          day = slice timestamp 6 8;
          hr = slice timestamp 8 10;
          minute = slice timestamp 10 12;
          sec = slice timestamp 12 14;
          isoString = year @ ''-'' @ month @ ''-'' @ day @ ''T'' @ hr @ '':'' @ minute @ '':''
                      @ sec @ ''.000Z''
      in date_millis isoString)"

text \<open>The callback of \<^verbatim>\<open>migrationFolders.forEach((entry, idx) => ...)\<close>.\<close>

definition journal_step :: "(string \<Rightarrow> int option) \<Rightarrow> string \<times> string \<Rightarrow> nat \<times> string
    \<Rightarrow> string \<times> string" where
  "journal_step date_millis acc item =
     (let content = fst acc; journalEntries = snd acc; idx = fst item; entry = snd item;
          importName = ''m'' @ padStart (show_nat idx) 4 (CHR ''0'');
          content' = content @ ''import '' @ importName @ '' from './'' @ entry
                     @ ''/migration.sql';\<newline>'';
          millis = timestampToMillis date_millis (slice entry 0 14);
          journalEntries' = journalEntries @ ''\<newline>{ idx: '' @ show_nat idx @ '', when: ''
                     @ show_millis millis @ '' }, ''
      in (content', journalEntries'))"

text \<open>\<^verbatim>\<open>embeddedMigrations\<close> from its list of directories on.\<close>

definition manifest :: "(string \<Rightarrow> int option) \<Rightarrow> string list \<Rightarrow> string" where
  "manifest date_millis migrationFolders =
     (let content0 = ''// This file is required for Expo/React Native SQLite migrations - ''
            @ ''https://orm.drizzle.team/quick-sqlite/expo\<newline>\<newline>'';
          acc = foldl (journal_step date_millis) (content0, [])
                  (List.enumerate 0 migrationFolders);
          content = fst acc; journalEntries = snd acc
      in content @ ''\<newline>export default {\<newline>'' @ [CHR 0x09] @ ''journal: {\<newline>''
         @ [CHR 0x09, CHR 0x09] @ ''entries: ['' @ journalEntries @ '']\<newline>''
         @ [CHR 0x09] @ ''},\<newline>'' @ [CHR 0x09] @ ''migrations: {\<newline>''
         @ [CHR 0x09, CHR 0x09]
         @ join (map (\<lambda>item. ''m'' @ padStart (show_nat (fst item)) 4 (CHR ''0''))
                   (List.enumerate 0 migrationFolders)) '',\<newline>''
         @ ''\<newline>'' @ [CHR 0x09] @ ''}\<newline>}\<newline>  '')"

definition embeddedMigrations :: "(string \<Rightarrow> int option) \<Rightarrow> (string, 'r) IO" where
  "embeddedMigrations date_millis =
     io_bind readdirSync (\<lambda>names.
     io_bind (filter_isDirectory names) (\<lambda>migrationFolders.
     io_return (manifest date_millis migrationFolders)))"

section \<open>The migration unit writer\<close>

datatype MigrationType = Introspect | Custom | NoType

text \<open>
  The argument object of \<^verbatim>\<open>writeResult\<close>; \<open>meta = None\<close> is an omitted \<^verbatim>\<open>_meta\<close>,
  \<open>NoType\<close> is \<^verbatim>\<open>'none'\<close>, \<open>bundled\<close> is \<^verbatim>\<open>bundle\<close>.
\<close>

record ('s, 'm) WriteResultArgs =
  cur :: 's
  sqlStatements :: "string list"
  meta :: "'m option"
  outFolder :: string
  breakpoints :: bool
  migration_name :: "string option"
  bundled :: bool
  migration_type :: MigrationType

text \<open>
  What \<^verbatim>\<open>writeResult\<close> takes from outside this file: the view \<^verbatim>\<open>schema(cur)\<close>, the
  tag that \<^verbatim>\<open>prepareMigrationMetadata(name)\<close> returns in this run, the text
  \<^verbatim>\<open>JSON.stringify(toSave, null, 2)\<close> of a schema with its \<^verbatim>\<open>_meta\<close>, the default
  \<^verbatim>\<open>_meta\<close>, and the date parser.
\<close>

record ('s, 'm) Env =
  schema_view :: "'s \<Rightarrow> string"
  metadata_tag :: "string option \<Rightarrow> string"
  snapshot_json :: "'s \<Rightarrow> 'm \<Rightarrow> string"
  default_meta :: 'm
  date_millis_of :: "string \<Rightarrow> int option"

definition BREAKPOINT :: string where
  "BREAKPOINT = ''--> statement-breakpoint\<newline>''"

text \<open>The \<^verbatim>\<open>if (bundle)\<close> block, which stands twice in \<^verbatim>\<open>writeResult\<close>.\<close>

definition write_migrations_js :: "('s, 'm) Env \<Rightarrow> (unit, 'r) IO" where
  "write_migrations_js env =
     io_bind (embeddedMigrations (date_millis_of env)) (\<lambda>js.
     writeFileSync ''migrations.js'' js)"

text \<open>
  The first block of \<^verbatim>\<open>writeResult\<close>, \<^verbatim>\<open>if (type === 'none') { ... }\<close>: its value
  says whether the function returns from inside it.
\<close>

definition writeResult_none :: "('s, 'm) Env \<Rightarrow> ('s, 'm) WriteResultArgs \<Rightarrow> (bool, 'r) IO" where
  "writeResult_none env args =
     io_bind (print (SchemaView (schema_view env (cur args)))) (\<lambda>u.
     io_bind (if bundled args
              then io_bind (write_migrations_js env) (\<lambda>u.
                   print (MigrationsJsUpdated (outFolder args)))
              else io_return ()) (\<lambda>u.
     if length (sqlStatements args) = 0
     then io_bind (print NoSchemaChanges) (\<lambda>u. io_return True)
     else io_return False))"

text \<open>The rest of \<^verbatim>\<open>writeResult\<close>, from \<^verbatim>\<open>prepareMigrationMetadata(name)\<close> on.\<close>

definition writeResult_unit :: "('s, 'm) Env \<Rightarrow> ('s, 'm) WriteResultArgs \<Rightarrow> (unit, 'r) IO" where
  "writeResult_unit env args =
     (let tag = metadata_tag env (migration_name args);
          toSave = snapshot_json env (cur args)
                     (case meta args of None \<Rightarrow> default_meta env | Some m \<Rightarrow> m);
          sqlDelimiter = (if breakpoints args then BREAKPOINT else ''\<newline>'');
          sql = join (sqlStatements args) sqlDelimiter;
          sql1 = (if migration_type args = Introspect
                  then ''-- Current sql file was generated after introspecting the database\<newline>''
                       @ ''-- If you want to run this migration please uncomment this code ''
                       @ ''before executing migrations\<newline>/*\<newline>'' @ sql @ ''\<newline>*/''
                  else sql)
      in io_bind (if migration_type args = Custom
                  then io_bind (print CustomFilePrepared) (\<lambda>u.
                       io_return ''-- Custom SQL migration file, put you code below! --'')
                  else io_return sql1) (\<lambda>sql2.
         io_bind (mkdirSync_recursive tag) (\<lambda>u.
         io_bind (writeFileSync_in tag ''snapshot.json'' toSave) (\<lambda>u.
         io_bind (writeFileSync_in tag ''migration.sql'' sql2) (\<lambda>u.
         io_bind (if bundled args then write_migrations_js env else io_return ()) (\<lambda>u.
         print (MigrationFileWritten (outFolder args) tag)))))))"

definition writeResult :: "('s, 'm) Env \<Rightarrow> ('s, 'm) WriteResultArgs \<Rightarrow> (unit, 'r) IO" where
  "writeResult env args =
     io_bind (if migration_type args = NoType then writeResult_none env args
              else io_return False) (\<lambda>returned.
     if returned then io_return () else writeResult_unit env args)"

text \<open>The migration units of an out folder: its directories with their files.\<close>

fun unit_directories :: "(string \<times> Node) list \<Rightarrow> (string \<times> (string \<times> string) list) list" where
  "unit_directories [] = []"
| "unit_directories ((n, File content) # es) = unit_directories es"
| "unit_directories ((n, Directory files) # es) = (n, files) # unit_directories es"

definition units :: "'r World \<Rightarrow> (string \<times> (string \<times> string) list) list" where
  "units w = (case folder w of None \<Rightarrow> [] | Some es \<Rightarrow> unit_directories es)"

section \<open>The resolvers handed to the differ\<close>

text \<open>
  \<^verbatim>\<open>ResolverInput<T>\<close>, \<^verbatim>\<open>ColumnsResolverInput<T>\<close> and
  \<^verbatim>\<open>ColumnsResolverOutput<T>\<close> of \<^verbatim>\<open>snapshotsDiffer\<close>, as the resolvers use them.
\<close>

record 'r ResolverInput =
  input_created :: "'r list"
  input_deleted :: "'r list"

record 'r ColumnsResolverInput = "'r ResolverInput" +
  input_tableName :: string
  input_schema :: string

record 'r ColumnsResolverOutput = "'r ResolverOutput" +
  output_tableName :: string
  output_schema :: string

definition schemasResolver :: "'r Oracle \<Rightarrow> 'r ResolverInput \<Rightarrow> 'r Interaction list
    \<Rightarrow> (Exit + 'r ResolverOutput) \<times> 'r Interaction list" where
  "schemasResolver orc input log =
     (case promptSchemasConflict orc (input_created input) (input_deleted input) log of
        (Inl e, log') \<Rightarrow> (Inl e, log')
      | (Inr r, log') \<Rightarrow>
          (Inr \<lparr>created = created r, renamed = renamed r, deleted = deleted r\<rparr>, log'))"

definition tablesResolver :: "'r Oracle \<Rightarrow> ('r \<Rightarrow> NamedWithSchema) \<Rightarrow> 'r ResolverInput
    \<Rightarrow> 'r Interaction list \<Rightarrow> (Exit + 'r ResolverOutputWithMoved) \<times> 'r Interaction list" where
  "tablesResolver orc heap input log =
     (case promptNamedWithSchemasConflict orc heap (input_created input) (input_deleted input)
             Table log of
        (Inl e, log') \<Rightarrow> (Inl e, log')
      | (Inr r, log') \<Rightarrow>
          (Inr \<lparr>created = created r, renamed = renamed r, deleted = deleted r,
                moved = moved r\<rparr>, log'))"

definition sequencesResolver :: "'r Oracle \<Rightarrow> ('r \<Rightarrow> NamedWithSchema) \<Rightarrow> 'r ResolverInput
    \<Rightarrow> 'r Interaction list \<Rightarrow> (Exit + 'r ResolverOutputWithMoved) \<times> 'r Interaction list" where
  "sequencesResolver orc heap input log =
     (case promptNamedWithSchemasConflict orc heap (input_created input) (input_deleted input)
             Sequence log of
        (Inl e, log') \<Rightarrow> (Inl e, log')
      | (Inr r, log') \<Rightarrow>
          (Inr \<lparr>created = created r, renamed = renamed r, deleted = deleted r,
                moved = moved r\<rparr>, log'))"

definition enumsResolver :: "'r Oracle \<Rightarrow> ('r \<Rightarrow> NamedWithSchema) \<Rightarrow> 'r ResolverInput
    \<Rightarrow> 'r Interaction list \<Rightarrow> (Exit + 'r ResolverOutputWithMoved) \<times> 'r Interaction list" where
  "enumsResolver orc heap input log =
     (case promptNamedWithSchemasConflict orc heap (input_created input) (input_deleted input)
             Enum log of
        (Inl e, log') \<Rightarrow> (Inl e, log')
      | (Inr r, log') \<Rightarrow>
          (Inr \<lparr>created = created r, renamed = renamed r, deleted = deleted r,
                moved = moved r\<rparr>, log'))"

definition columnsResolver :: "'r Oracle \<Rightarrow> 'r ColumnsResolverInput \<Rightarrow> 'r Interaction list
    \<Rightarrow> (Exit + 'r ColumnsResolverOutput) \<times> 'r Interaction list" where
  "columnsResolver orc input log =
     (case promptColumnsConflicts orc (input_tableName input) (input_created input)
             (input_deleted input) log of
        (Inl e, log') \<Rightarrow> (Inl e, log')
      | (Inr r, log') \<Rightarrow>
          (Inr \<lparr>created = created r, renamed = renamed r, deleted = deleted r,
                output_tableName = input_tableName input, output_schema = input_schema input\<rparr>,
           log'))"

section \<open>The commands\<close>

text \<open>
  \<^verbatim>\<open>applyPgSnapshotsDiff\<close>, \<^verbatim>\<open>applyMysqlSnapshotsDiff\<close> and
  \<^verbatim>\<open>applySqliteSnapshotsDiff\<close> are not in this file. A command hands them the
  resolvers above; what they do with them is a parameter of the model: a differ is any
  program that calls the resolvers, any number of times and in any order, computes its next
  step from what they return, and ends with its result or an exception. The interpreter
  runs it; when a resolver ends the process, nothing after it runs.
\<close>

datatype ('r, 'a) Differ =
    Finish 'a
  | Fail Exception
  | AskSchemas "'r ResolverInput" "'r ResolverOutput \<Rightarrow> ('r, 'a) Differ"
  | AskEnums "'r ResolverInput" "'r ResolverOutputWithMoved \<Rightarrow> ('r, 'a) Differ"
  | AskSequences "'r ResolverInput" "'r ResolverOutputWithMoved \<Rightarrow> ('r, 'a) Differ"
  | AskTables "'r ResolverInput" "'r ResolverOutputWithMoved \<Rightarrow> ('r, 'a) Differ"
  | AskColumns "'r ColumnsResolverInput" "'r ColumnsResolverOutput \<Rightarrow> ('r, 'a) Differ"

primrec run_differ :: "'r Oracle \<Rightarrow> ('r \<Rightarrow> NamedWithSchema) \<Rightarrow> ('r, 'a) Differ
    \<Rightarrow> 'r Interaction list \<Rightarrow> (Exit + Exception + 'a) \<times> 'r Interaction list" where
  "run_differ orc heap (Finish a) = (\<lambda>log. (Inr (Inr a), log))"
| "run_differ orc heap (Fail e) = (\<lambda>log. (Inr (Inl e), log))"
| "run_differ orc heap (AskSchemas input k) =
     (\<lambda>log. case schemasResolver orc input log of
        (Inl x, log') \<Rightarrow> (Inl x, log')
      | (Inr r, log') \<Rightarrow> run_differ orc heap (k r) log')"
| "run_differ orc heap (AskEnums input k) =
     (\<lambda>log. case enumsResolver orc heap input log of
        (Inl x, log') \<Rightarrow> (Inl x, log')
      | (Inr r, log') \<Rightarrow> run_differ orc heap (k r) log')"
| "run_differ orc heap (AskSequences input k) =
     (\<lambda>log. case sequencesResolver orc heap input log of
        (Inl x, log') \<Rightarrow> (Inl x, log')
      | (Inr r, log') \<Rightarrow> run_differ orc heap (k r) log')"
| "run_differ orc heap (AskTables input k) =
     (\<lambda>log. case tablesResolver orc heap input log of
        (Inl x, log') \<Rightarrow> (Inl x, log')
      | (Inr r, log') \<Rightarrow> run_differ orc heap (k r) log')"
| "run_differ orc heap (AskColumns input k) =
     (\<lambda>log. case columnsResolver orc input log of
        (Inl x, log') \<Rightarrow> (Inl x, log')
      | (Inr r, log') \<Rightarrow> run_differ orc heap (k r) log')"

text \<open>\<^verbatim>\<open>GenerateConfig\<close>, as the commands read it.\<close>

record GenerateConfig =
  config_out :: string
  config_name :: "string option"
  config_breakpoints :: bool
  config_custom :: bool
  config_bundle :: bool

text \<open>
  \<^verbatim>\<open>try { body } catch (e) { console.error(e) }\<close>, and the outcome of a command: the
  process has exited with a code, or the command has returned.
\<close>

definition catch_and_log :: "(unit, 'r) IO \<Rightarrow> 'r World \<Rightarrow> (Exit + unit) \<times> 'r World" where
  "catch_and_log m w =
     (case m w of
        (Inl e, w') \<Rightarrow> (Inr (), w'\<lparr>console := console w' @ [ErrorLogged e]\<rparr>)
      | (Inr u, w') \<Rightarrow> (Inr (), w'))"

text \<open>
  The three commands, from the point where the snapshots are prepared and validated: the
  parameters \<open>cur_schema\<close> and \<open>custom_schema\<close> are \<^verbatim>\<open>cur\<close> and \<^verbatim>\<open>custom\<close>, and
  \<open>differ\<close> is the differ applied to the squashed snapshots.
\<close>

definition prepareAndMigratePg :: "('s, 'm) Env \<Rightarrow> 'r Oracle \<Rightarrow> ('r \<Rightarrow> NamedWithSchema)
    \<Rightarrow> 's \<Rightarrow> 's \<Rightarrow> ('r, string list \<times> 'm) Differ \<Rightarrow> GenerateConfig
    \<Rightarrow> 'r World \<Rightarrow> (Exit + unit) \<times> 'r World" where
  "prepareAndMigratePg env orc heap cur_schema custom_schema differ config w =
     (if config_custom config
      then catch_and_log (writeResult env
             \<lparr>cur = custom_schema, sqlStatements = [], meta = None,
               outFolder = config_out config, breakpoints = config_breakpoints config,
               migration_name = config_name config, bundled = False,
               migration_type = Custom\<rparr>) w
      else
        case run_differ orc heap differ (prompts w) of
          (Inl exit, log') \<Rightarrow> (Inl exit, w\<lparr>prompts := log'\<rparr>)
        | (Inr (Inl e), log') \<Rightarrow>
            (Inr (), w\<lparr>prompts := log', console := console w @ [ErrorLogged e]\<rparr>)
        | (Inr (Inr result), log') \<Rightarrow>
            catch_and_log (writeResult env
              \<lparr>cur = cur_schema, sqlStatements = fst result, meta = None,
                outFolder = config_out config, breakpoints = config_breakpoints config,
                migration_name = config_name config, bundled = False,
                migration_type = NoType\<rparr>) (w\<lparr>prompts := log'\<rparr>))"

definition prepareAndMigrateMysql :: "('s, 'm) Env \<Rightarrow> 'r Oracle \<Rightarrow> ('r \<Rightarrow> NamedWithSchema)
    \<Rightarrow> 's \<Rightarrow> 's \<Rightarrow> ('r, string list \<times> 'm) Differ \<Rightarrow> GenerateConfig
    \<Rightarrow> 'r World \<Rightarrow> (Exit + unit) \<times> 'r World" where
  "prepareAndMigrateMysql env orc heap cur_schema custom_schema differ config w =
     (if config_custom config
      then catch_and_log (writeResult env
             \<lparr>cur = custom_schema, sqlStatements = [], meta = None,
               outFolder = config_out config, breakpoints = config_breakpoints config,
               migration_name = config_name config, bundled = False,
               migration_type = Custom\<rparr>) w
      else
        case run_differ orc heap differ (prompts w) of
          (Inl exit, log') \<Rightarrow> (Inl exit, w\<lparr>prompts := log'\<rparr>)
        | (Inr (Inl e), log') \<Rightarrow>
            (Inr (), w\<lparr>prompts := log', console := console w @ [ErrorLogged e]\<rparr>)
        | (Inr (Inr result), log') \<Rightarrow>
            catch_and_log (writeResult env
              \<lparr>cur = cur_schema, sqlStatements = fst result, meta = Some (snd result),
                outFolder = config_out config, breakpoints = config_breakpoints config,
                migration_name = config_name config, bundled = False,
                migration_type = NoType\<rparr>) (w\<lparr>prompts := log'\<rparr>))"

definition prepareAndMigrateSqlite :: "('s, 'm) Env \<Rightarrow> 'r Oracle \<Rightarrow> ('r \<Rightarrow> NamedWithSchema)
    \<Rightarrow> 's \<Rightarrow> 's \<Rightarrow> ('r, string list \<times> 'm) Differ \<Rightarrow> GenerateConfig
    \<Rightarrow> 'r World \<Rightarrow> (Exit + unit) \<times> 'r World" where
  "prepareAndMigrateSqlite env orc heap cur_schema custom_schema differ config w =
     (if config_custom config
      then catch_and_log (writeResult env
             \<lparr>cur = custom_schema, sqlStatements = [], meta = None,
               outFolder = config_out config, breakpoints = config_breakpoints config,
               migration_name = config_name config, bundled = config_bundle config,
               migration_type = Custom\<rparr>) w
      else
        case run_differ orc heap differ (prompts w) of
          (Inl exit, log') \<Rightarrow> (Inl exit, w\<lparr>prompts := log'\<rparr>)
        | (Inr (Inl e), log') \<Rightarrow>
            (Inr (), w\<lparr>prompts := log', console := console w @ [ErrorLogged e]\<rparr>)
        | (Inr (Inr result), log') \<Rightarrow>
            catch_and_log (writeResult env
              \<lparr>cur = cur_schema, sqlStatements = fst result, meta = Some (snd result),
                outFolder = config_out config, breakpoints = config_breakpoints config,
                migration_name = config_name config, bundled = config_bundle config,
                migration_type = NoType\<rparr>) (w\<lparr>prompts := log'\<rparr>))"

section \<open>Reading a log\<close>

text \<open>The options a prompt offers, and the missing entities among them, in order.\<close>

fun offered :: "'r Prompt \<Rightarrow> 'r PromptData list" where
  "offered (ResolveColumnSelect tableName c promptData) = promptData"
| "offered (ResolveSelect c promptData entity) = promptData"
| "offered (ResolveSchemasSelect c promptData) = promptData"

fun rename_sources :: "'r PromptData list \<Rightarrow> 'r list" where
  "rename_sources [] = []"
| "rename_sources (Plain c # ds) = rename_sources ds"
| "rename_sources (Rename d # ds) = item_from d # rename_sources ds"

text \<open>The rename answers of a log, in order.\<close>

fun rename_answers :: "'r Interaction list \<Rightarrow> 'r RenamePropmtItem list" where
  "rename_answers [] = []"
| "rename_answers ((p, Submitted (Rename d)) # tr) = d # rename_answers tr"
| "rename_answers ((p, a) # tr) = rename_answers tr"

text \<open>Every answer of the log that is not an abort is one of the options of its prompt.\<close>

fun chosen_from_offered :: "'r Interaction list \<Rightarrow> bool" where
  "chosen_from_offered [] = True"
| "chosen_from_offered ((p, Aborted) # tr) = chosen_from_offered tr"
| "chosen_from_offered ((p, Submitted d) # tr) = (d \<in> set (offered p) \<and> chosen_from_offered tr)"

text \<open>What a resolver call added to the log it started from.\<close>

definition added :: "'a list \<Rightarrow> 'a list \<Rightarrow> 'a list" where
  "added log log' = drop (length log) log'"

text \<open>
  A scripted oracle for examples: at its \<open>k\<close>-th prompt it selects the option at the
  \<open>k\<close>-th position of the script, and aborts when the script has run out or names no
  option.
\<close>

definition scripted :: "nat list \<Rightarrow> 'r Oracle" where
  "scripted script log p =
     (if length log < length script \<and> script ! length log < length (offered p)
      then Submitted (offered p ! (script ! length log)) else Aborted)"

text \<open>No answer of the log is an abort.\<close>

fun no_abort :: "'r Interaction list \<Rightarrow> bool" where
  "no_abort [] = True"
| "no_abort ((p, a) # tr) = (a \<noteq> Aborted \<and> no_abort tr)"

text \<open>
  The log is not empty, its last answer is an abort, and no answer before it is one.
\<close>

fun ends_in_abort :: "'r Interaction list \<Rightarrow> bool" where
  "ends_in_abort [] = False"
| "ends_in_abort [(p, a)] = (a = Aborted)"
| "ends_in_abort ((p, a) # i # tr) = (a \<noteq> Aborted \<and> ends_in_abort (i # tr))"

section \<open>Definitions for the analysis of the loops\<close>

text \<open>A loop body run over a list of candidates, stopping at the first exit.\<close>

fun run_candidates :: "('c \<Rightarrow> 's \<Rightarrow> 'l \<Rightarrow> (Exit + 's) \<times> 'l) \<Rightarrow> 'c list \<Rightarrow> 's \<Rightarrow> 'l \<Rightarrow> (Exit + 's) \<times> 'l" where
  "run_candidates body [] st log = (Inr st, log)"
| "run_candidates body (c # cs) st log =
     (case body c st log of
        (Inl e, log') \<Rightarrow> (Inl e, log')
      | (Inr st', log') \<Rightarrow> run_candidates body cs st' log')"

text \<open>
  The pool after a sequence of rename answers: each answer takes the first remaining
  occurrence of its \<open>from\<close> out of the pool, if there is one.
\<close>

fun final_pool :: "'r list \<Rightarrow> 'r RenamePropmtItem list \<Rightarrow> 'r list" where
  "final_pool pool [] = pool"
| "final_pool pool (d # ds) = final_pool (remove1 (item_from d) pool) ds"

fun pool_after :: "'r list \<Rightarrow> 'r RenderResult \<Rightarrow> 'r list" where
  "pool_after pool (Submitted (Rename d)) = remove1 (item_from d) pool"
| "pool_after pool a = pool"

text \<open>
  The rename options of each prompt of the log are the pool the answers before it have left.
\<close>

fun pools_follow :: "'r list \<Rightarrow> 'r Interaction list \<Rightarrow> bool" where
  "pools_follow pool [] = True"
| "pools_follow pool ((p, a) # tr) =
     (rename_sources (offered p) = pool \<and> pools_follow (pool_after pool a) tr)"

text \<open>
  No prompt after a rename answer offers the missing entity of that answer again.
\<close>

fun never_reoffered :: "'r Interaction list \<Rightarrow> bool" where
  "never_reoffered [] = True"
| "never_reoffered ((p, Submitted (Rename d)) # tr) =
     (list_all (\<lambda>i. item_from d \<notin> set (rename_sources (offered (fst i)))) tr
      \<and> never_reoffered tr)"
| "never_reoffered ((p, a) # tr) = never_reoffered tr"

text \<open>\<^verbatim>\<open>promptData = [created, ...renames]\<close> for a candidate and a pool.\<close>

definition options :: "'r \<Rightarrow> 'r list \<Rightarrow> 'r PromptData list" where
  "options c pool = Plain c # map Rename (map (\<lambda>it. \<lparr>item_from = it, item_to = c\<rparr>) pool)"

text \<open>
  What the three loop bodies have in common: the prompt they show, and what each kind of
  answer does to the result and the pool; \<open>keep\<close> says which rename answers are
  appended to \<^verbatim>\<open>renamed\<close>.
\<close>

definition behaves :: "'r Oracle \<Rightarrow> ('r \<Rightarrow> 'r PromptData list \<Rightarrow> 'r Prompt)
    \<Rightarrow> ('r RenamePropmtItem \<Rightarrow> bool)
    \<Rightarrow> ('r \<Rightarrow> ('r, 'z) ResolverOutput_scheme \<times> 'r list \<Rightarrow> 'r Interaction list
        \<Rightarrow> (Exit + ('r, 'z) ResolverOutput_scheme \<times> 'r list) \<times> 'r Interaction list)
    \<Rightarrow> bool" where
  "behaves orc mk keep body =
     (\<forall>c res pool log.
        snd (body c (res, pool) log) = log @ [(mk c (options c pool), orc log (mk c (options c pool)))]
        \<and> (case orc log (mk c (options c pool)) of
             Aborted \<Rightarrow> fst (body c (res, pool) log) = Inl (ProcessExit 1)
           | Submitted (Plain x) \<Rightarrow>
               (\<exists>res'. fst (body c (res, pool) log) = Inr (res', pool)
                  \<and> created res' = created res @ [c] \<and> renamed res' = renamed res
                  \<and> deleted res' = deleted res)
           | Submitted (Rename d) \<Rightarrow>
               (\<exists>res'. fst (body c (res, pool) log) = Inr (res', remove1 (item_from d) pool)
                  \<and> created res' = created res
                  \<and> renamed res' = renamed res @ (if keep d then [d] else [])
                  \<and> deleted res' = deleted res)))"

text \<open>The log of a resolver call: an exit ends it in an abort, a result has no abort.\<close>

definition exit_or_clean :: "(Exit + 'a) \<Rightarrow> 'r Interaction list \<Rightarrow> bool" where
  "exit_or_clean out tr =
     (case out of Inl e \<Rightarrow> e = ProcessExit 1 \<and> ends_in_abort tr | Inr r \<Rightarrow> no_abort tr)"

text \<open>A statement that leaves the log of interactions as it is.\<close>

definition keeps_prompts :: "('a, 'r) IO \<Rightarrow> bool" where
  "keeps_prompts m = (\<forall>w. prompts (snd (m w)) = prompts w)"

text \<open>An entry of the out folder that is a directory.\<close>

definition is_directory :: "Node option \<Rightarrow> bool" where
  "is_directory n = (case n of Some (Directory files) \<Rightarrow> True | _ \<Rightarrow> False)"

section \<open>Example inputs\<close>

text \<open>
  A heap of tables. Objects 2 and 3 are two objects with equal fields; objects 1 and 2 have
  one name in two schemas; object 5 is in the default schema, written as the empty string,
  and object 4 in the default schema, written \<^verbatim>\<open>'public'\<close>.
\<close>

definition example_heap :: "nat \<Rightarrow> NamedWithSchema" where
  "example_heap r =
     (if r = 1 then \<lparr>name = ''users'', schema = Some ''app''\<rparr>
      else if r = 2 then \<lparr>name = ''users'', schema = Some ''legacy''\<rparr>
      else if r = 3 then \<lparr>name = ''users'', schema = Some ''legacy''\<rparr>
      else if r = 4 then \<lparr>name = ''accounts'', schema = Some ''public''\<rparr>
      else if r = 5 then \<lparr>name = ''users'', schema = Some []\<rparr>
      else \<lparr>name = ''orders'', schema = Some ''app''\<rparr>)"

text \<open>An oracle that gives one answer to every prompt.\<close>

definition always :: "'r RenderResult \<Rightarrow> 'r Oracle" where
  "always a log p = a"

text \<open>
  Three example calls, answered by a script that takes the first rename option for the
  first candidate and creates the second.
\<close>

definition columns_example :: "(Exit + nat ResolverOutput) \<times> nat Interaction list" where
  "columns_example = promptColumnsConflicts (scripted [1, 0]) ''users'' [1, 2] [10, 11] []"

definition schemas_example :: "(Exit + nat ResolverOutput) \<times> nat Interaction list" where
  "schemas_example = promptSchemasConflict (scripted [1, 0]) [1, 2] [10, 11] []"

definition named_example :: "(Exit + nat ResolverOutputWithMoved) \<times> nat Interaction list" where
  "named_example =
     promptNamedWithSchemasConflict (scripted [1, 0]) example_heap [1, 6] [2, 5] Table []"

text \<open>
  An oracle that answers every prompt with a rename from object 3, the copy of object 2,
  to object 1.
\<close>

definition copy_oracle :: "nat Oracle" where
  "copy_oracle = always (Submitted (Rename \<lparr>item_from = 3, item_to = 1\<rparr>))"

text \<open>
  An out folder with three migration units and a directory \<^verbatim>\<open>meta\<close>, and the time
  values of the date parser on the strings \<^verbatim>\<open>timestampToMillis\<close> builds from these
  four names. The first three are date-times in the ISO format. The fourth,
  \<^verbatim>\<open>meta--T::.000Z\<close>, is not; the parser falls back to its lenient reading of the
  string, which gives midnight of 1 January 2000, UTC.
\<close>

definition example_dates :: "string \<Rightarrow> int option" where
  "example_dates isoString =
     (if isoString = ''2024-01-01T12:00:00.000Z'' then Some 1704110400000
      else if isoString = ''2024-01-01T12:05:00.000Z'' then Some 1704110700000
      else if isoString = ''2024-01-02T08:30:00.000Z'' then Some 1704184200000
      else if isoString = ''meta--T::.000Z'' then Some 946684800000
      else None)"

definition example_store :: "nat World" where
  "example_store =
     \<lparr>folder = Some [(''20240101120000_calm_otter'', Directory []),
                     (''20240101120500_brave_heron'', Directory []),
                     (''20240102083000_quiet_lynx'', Directory []),
                     (''meta'', Directory [])],
      console = [], prompts = []\<rparr>"

text \<open>
  An environment for examples, and a call of \<^verbatim>\<open>writeResult\<close> with no statements,
  type \<^verbatim>\<open>'none'\<close> and \<^verbatim>\<open>bundle\<close> set.
\<close>

definition example_env :: "(string, string) Env" where
  "example_env =
     \<lparr>schema_view = (\<lambda>s. s), metadata_tag = (\<lambda>n. ''20240103090000_new_unit''),
      snapshot_json = (\<lambda>s m. s @ m), default_meta = ''{}'',
      date_millis_of = example_dates\<rparr>"

definition no_changes_args :: "(string, string) WriteResultArgs" where
  "no_changes_args =
     \<lparr>cur = ''schema'', sqlStatements = [], meta = None, outFolder = ''drizzle'',
      breakpoints = True, migration_name = None, bundled = True, migration_type = NoType\<rparr>"

text \<open>
  A differ that resolves the schemas, then the tables, and ends with one statement; a
  configuration; and a script that creates the schema, takes the first rename for the first
  table and then runs out, so that the prompt for the second table is aborted.
\<close>

definition example_differ :: "(nat, string list \<times> string) Differ" where
  "example_differ =
     AskSchemas \<lparr>input_created = [1], input_deleted = [2]\<rparr> (\<lambda>schemas.
     AskTables \<lparr>input_created = [1, 6], input_deleted = [2, 5]\<rparr> (\<lambda>tables.
     Finish ([''ALTER TABLE users SET SCHEMA app;''], ''{}'')))"

definition example_config :: GenerateConfig where
  "example_config =
     \<lparr>config_out = ''drizzle'', config_name = None, config_breakpoints = True,
      config_custom = False, config_bundle = True\<rparr>"

definition aborting_script :: "nat Oracle" where
  "aborting_script = scripted [0, 1]"

text \<open>
  The same call of \<^verbatim>\<open>writeResult\<close> where the out folder does not exist, and where
  \<^verbatim>\<open>migrations.js\<close> is a directory of the out folder.
\<close>

definition missing_folder :: "nat World" where
  "missing_folder = \<lparr>folder = None, console = [], prompts = []\<rparr>"

definition blocked_store :: "nat World" where
  "blocked_store =
     \<lparr>folder = Some [(''20240101120000_calm_otter'', Directory []),
                     (''migrations.js'', Directory [])],
      console = [], prompts = []\<rparr>"

lemma indexOf_range: "- 1 \<le> indexOf xs x \<and> indexOf xs x < int (length xs)"
  by (induction xs) (auto simp: Let_def)

lemma indexOf_neg: "indexOf xs x < 0 \<longleftrightarrow> x \<notin> set xs"
  by (induction xs) (auto simp: Let_def)

lemma filter_Boolean_Some [simp]: "filter_Boolean (map Some xs) = xs"
  by (induction xs) (auto simp: filter_Boolean_def)

lemma filter_Boolean_Cons [simp]:
  "filter_Boolean [] = []"
  "filter_Boolean (Some x # arr) = x # filter_Boolean arr"
  "filter_Boolean (None # arr) = filter_Boolean arr"
  by (simp_all add: filter_Boolean_def)

lemma delete_and_compact_remove1: "delete_and_compact xs x = remove1 x xs"
proof (induction xs)
  case Nil
  show ?case by (simp add: delete_and_compact_def delete_index_def)
next
  case (Cons y ys)
  show ?case
  proof (cases "y = x")
    case True
    then show ?thesis by (simp add: delete_and_compact_def delete_index_def)
  next
    case False
    show ?thesis
    proof (cases "indexOf ys x < 0")
      case True
      with False indexOf_neg [of ys x] show ?thesis
        by (simp add: delete_and_compact_def delete_index_def remove1_idem)
    next
      case neg: False
      have "nat (indexOf ys x) < length ys" using indexOf_range [of ys x] neg by simp
      with neg False Cons.IH show ?thesis
        by (simp add: delete_and_compact_def delete_index_def Let_def nat_add_distrib)
    qed
  qed
qed


lemma rename_sources_options [simp]: "rename_sources (options c pool) = pool"
  by (induction pool) (auto simp: options_def)

lemma columns_behaves:
  "behaves orc (ResolveColumnSelect tableName) (\<lambda>d. True) (promptColumnsBody orc tableName)"
  by (auto simp: behaves_def promptColumnsBody_def render_def Let_def options_def
      delete_and_compact_remove1 split: RenderResult.splits PromptData.splits)

lemma schemas_behaves:
  "behaves orc ResolveSchemasSelect (\<lambda>d. True) (promptSchemasBody orc)"
  by (auto simp: behaves_def promptSchemasBody_def render_def Let_def options_def
      delete_and_compact_remove1 split: RenderResult.splits PromptData.splits)

lemma named_behaves:
  "behaves orc (\<lambda>c pd. ResolveSelect c pd entity)
     (\<lambda>d. name (heap (item_from d)) \<noteq> name (heap (item_to d)))
     (promptNamedWithSchemasBody orc heap entity)"
  by (auto simp: behaves_def promptNamedWithSchemasBody_def render_def Let_def options_def
      delete_and_compact_remove1 split: RenderResult.splits PromptData.splits)


text \<open>One iteration, seen from outside: the cases of the answer.\<close>

lemma behaves_cases:
  assumes b: "behaves orc mk keep body"
  obtains
    (abort) "body c (res, pool) log = (Inl (ProcessExit 1), log @ [(mk c (options c pool), Aborted)])"
  | (plain) x res' where
      "body c (res, pool) log = (Inr (res', pool), log @ [(mk c (options c pool), Submitted (Plain x))])"
      "created res' = created res @ [c]" "renamed res' = renamed res" "deleted res' = deleted res"
  | (rename) d res' where
      "body c (res, pool) log =
         (Inr (res', remove1 (item_from d) pool), log @ [(mk c (options c pool), Submitted (Rename d))])"
      "created res' = created res" "renamed res' = renamed res @ (if keep d then [d] else [])"
      "deleted res' = deleted res"
proof -
  let ?a = "orc log (mk c (options c pool))"
  from b have spec: "snd (body c (res, pool) log) = log @ [(mk c (options c pool), ?a)]
        \<and> (case ?a of
             Aborted \<Rightarrow> fst (body c (res, pool) log) = Inl (ProcessExit 1)
           | Submitted (Plain x) \<Rightarrow>
               (\<exists>res'. fst (body c (res, pool) log) = Inr (res', pool)
                  \<and> created res' = created res @ [c] \<and> renamed res' = renamed res
                  \<and> deleted res' = deleted res)
           | Submitted (Rename d) \<Rightarrow>
               (\<exists>res'. fst (body c (res, pool) log) = Inr (res', remove1 (item_from d) pool)
                  \<and> created res' = created res
                  \<and> renamed res' = renamed res @ (if keep d then [d] else [])
                  \<and> deleted res' = deleted res))"
    unfolding behaves_def by blast
  show ?thesis
  proof (cases ?a)
    case Aborted
    with spec have
      "body c (res, pool) log = (Inl (ProcessExit 1), log @ [(mk c (options c pool), Aborted)])"
      by (simp add: prod_eq_iff)
    then show ?thesis by (rule abort)
  next
    case (Submitted data)
    show ?thesis
    proof (cases data)
      case (Plain x)
      with Submitted spec
      obtain res' where "body c (res, pool) log = (Inr (res', pool), log @ [(mk c (options c pool), Submitted (Plain x))])"
        "created res' = created res @ [c]" "renamed res' = renamed res" "deleted res' = deleted res"
        by (auto simp: prod_eq_iff)
      then show ?thesis by (rule plain)
    next
      case (Rename d)
      with Submitted spec
      obtain res' where "body c (res, pool) log =
         (Inr (res', remove1 (item_from d) pool), log @ [(mk c (options c pool), Submitted (Rename d))])"
        "created res' = created res" "renamed res' = renamed res @ (if keep d then [d] else [])"
        "deleted res' = deleted res"
        by (auto simp: prod_eq_iff)
      then show ?thesis by (rule rename)
    qed
  qed
qed

text \<open>A run over the candidates: what it adds to the log, and its result.\<close>

lemma rename_answers_append [simp]:
  "rename_answers (tr @ tr') = rename_answers tr @ rename_answers tr'"
  by (induction tr rule: rename_answers.induct) auto

lemma run_trace:
  assumes b: "behaves orc mk keep body" and off: "\<And>c pd. offered (mk c pd) = pd"
  shows "run_candidates body cs (res, pool) log = (out, log') \<Longrightarrow>
    \<exists>tr. log' = log @ tr \<and> pools_follow pool tr \<and>
      (case out of
         Inl e \<Rightarrow> e = ProcessExit 1 \<and> tr \<noteq> [] \<and> snd (last tr) = Aborted
       | Inr st' \<Rightarrow> length tr = length cs \<and> snd st' = final_pool pool (rename_answers tr)
           \<and> length (created (fst st')) + length (rename_answers tr) = length (created res) + length cs
           \<and> renamed (fst st') = renamed res @ filter keep (rename_answers tr)
           \<and> deleted (fst st') = deleted res)"
proof (induction cs arbitrary: res pool log)
  case Nil
  then show ?case by auto
next
  case (Cons c cs)
  from b show ?case
  proof (cases rule: behaves_cases [where c = c and res = res and pool = pool and log = log])
    case abort
    with Cons.prems show ?thesis
      by (intro exI [of _ "[(mk c (options c pool), Aborted)]"]) (auto simp: off)
  next
    case (plain x res')
    with Cons.prems have "run_candidates body cs (res', pool) (log @ [(mk c (options c pool), Submitted (Plain x))]) = (out, log')"
      by simp
    from Cons.IH [OF this] obtain tr where tr: "log' = (log @ [(mk c (options c pool), Submitted (Plain x))]) @ tr"
      "pools_follow pool tr"
      "(case out of
         Inl e \<Rightarrow> e = ProcessExit 1 \<and> tr \<noteq> [] \<and> snd (last tr) = Aborted
       | Inr st' \<Rightarrow> length tr = length cs \<and> snd st' = final_pool pool (rename_answers tr)
           \<and> length (created (fst st')) + length (rename_answers tr) = length (created res') + length cs
           \<and> renamed (fst st') = renamed res' @ filter keep (rename_answers tr)
           \<and> deleted (fst st') = deleted res')" by blast
    with plain show ?thesis
      by (intro exI [of _ "(mk c (options c pool), Submitted (Plain x)) # tr"])
        (auto simp: off split: sum.splits)
  next
    case (rename d res')
    with Cons.prems have "run_candidates body cs (res', remove1 (item_from d) pool) (log @ [(mk c (options c pool), Submitted (Rename d))]) = (out, log')"
      by simp
    from Cons.IH [OF this] obtain tr where tr: "log' = (log @ [(mk c (options c pool), Submitted (Rename d))]) @ tr"
      "pools_follow (remove1 (item_from d) pool) tr"
      "(case out of
         Inl e \<Rightarrow> e = ProcessExit 1 \<and> tr \<noteq> [] \<and> snd (last tr) = Aborted
       | Inr st' \<Rightarrow> length tr = length cs \<and> snd st' = final_pool (remove1 (item_from d) pool) (rename_answers tr)
           \<and> length (created (fst st')) + length (rename_answers tr) = length (created res') + length cs
           \<and> renamed (fst st') = renamed res' @ filter keep (rename_answers tr)
           \<and> deleted (fst st') = deleted res')" by blast
    with rename show ?thesis
      by (intro exI [of _ "(mk c (options c pool), Submitted (Rename d)) # tr"])
        (auto simp: off split: sum.splits)
  qed
qed


text \<open>The index loops run the body over the candidates from \<open>index\<close> on.\<close>

lemma promptColumnsLoop_run:
  "index < length newColumns \<Longrightarrow>
   promptColumnsLoop orc tableName newColumns index st log =
   run_candidates (promptColumnsBody orc tableName) (drop index newColumns) st log"
proof (induction orc tableName newColumns index st log rule: promptColumnsLoop.induct)
  case (1 orc tableName newColumns index st log)
  from "1.prems" have d: "drop index newColumns = newColumns ! index # drop (index + 1) newColumns"
    by (simp add: Cons_nth_drop_Suc)
  show ?case
  proof (cases "index + 1 < length newColumns")
    case True
    with "1.IH" d show ?thesis
      by (subst promptColumnsLoop.simps) (auto split: prod.splits sum.splits)
  next
    case False
    with "1.prems" have "drop (index + 1) newColumns = []" by simp
    with False d show ?thesis
      by (subst promptColumnsLoop.simps) (auto split: prod.splits sum.splits)
  qed
qed

lemma promptSchemasLoop_run:
  "index < length newSchemas \<Longrightarrow>
   promptSchemasLoop orc newSchemas index st log =
   run_candidates (promptSchemasBody orc) (drop index newSchemas) st log"
proof (induction orc newSchemas index st log rule: promptSchemasLoop.induct)
  case (1 orc newSchemas index st log)
  from "1.prems" have d: "drop index newSchemas = newSchemas ! index # drop (index + 1) newSchemas"
    by (simp add: Cons_nth_drop_Suc)
  show ?case
  proof (cases "index + 1 < length newSchemas")
    case True
    with "1.IH" d show ?thesis
      by (subst promptSchemasLoop.simps) (auto split: prod.splits sum.splits)
  next
    case False
    with "1.prems" have "drop (index + 1) newSchemas = []" by simp
    with False d show ?thesis
      by (subst promptSchemasLoop.simps) (auto split: prod.splits sum.splits)
  qed
qed

lemma promptNamedWithSchemasLoop_run:
  "index < length newItems \<Longrightarrow>
   promptNamedWithSchemasLoop orc heap entity newItems index st log =
   run_candidates (promptNamedWithSchemasBody orc heap entity) (drop index newItems) st log"
proof (induction orc heap entity newItems index st log rule: promptNamedWithSchemasLoop.induct)
  case (1 orc heap entity newItems index st log)
  from "1.prems" have d: "drop index newItems = newItems ! index # drop (index + 1) newItems"
    by (simp add: Cons_nth_drop_Suc)
  show ?case
  proof (cases "index + 1 < length newItems")
    case True
    with "1.IH" d show ?thesis
      by (subst promptNamedWithSchemasLoop.simps) (auto split: prod.splits sum.splits)
  next
    case False
    with "1.prems" have "drop (index + 1) newItems = []" by simp
    with False d show ?thesis
      by (subst promptNamedWithSchemasLoop.simps) (auto split: prod.splits sum.splits)
  qed
qed

text \<open>Facts about logs in which the offered pools follow the answers.\<close>

lemma pool_after_absent: "x \<notin> set pool \<Longrightarrow> x \<notin> set (pool_after pool a)"
  by (induction pool a rule: pool_after.induct) auto

lemma pools_follow_absent:
  "pools_follow pool tr \<Longrightarrow> x \<notin> set pool \<Longrightarrow>
   list_all (\<lambda>i. x \<notin> set (rename_sources (offered (fst i)))) tr"
proof (induction tr arbitrary: pool)
  case Nil
  show ?case by simp
next
  case (Cons i tr)
  obtain p a where i: "i = (p, a)" by (cases i)
  from Cons.prems have "x \<notin> set (pool_after pool a)"
    by (simp add: pool_after_absent)
  with Cons i show ?case by auto
qed

lemma pools_follow_never_reoffered:
  "pools_follow pool tr \<Longrightarrow> distinct pool \<Longrightarrow> never_reoffered tr"
proof (induction tr arbitrary: pool rule: never_reoffered.induct)
  case 1
  show ?case by simp
next
  case (2 p d tr)
  from "2.prems" have "pools_follow (remove1 (item_from d) pool) tr"
    "distinct (remove1 (item_from d) pool)" "item_from d \<notin> set (remove1 (item_from d) pool)"
    by simp_all
  with "2.IH" pools_follow_absent show ?case by fastforce
qed auto

lemma offered_rename_source:
  "Rename d \<in> set pd \<Longrightarrow> item_from d \<in> set (rename_sources pd)"
  by (induction pd rule: rename_sources.induct) auto

lemma pools_follow_sources:
  "pools_follow pool tr \<Longrightarrow> chosen_from_offered tr \<Longrightarrow>
   set (map item_from (rename_answers tr)) \<subseteq> set pool"
proof (induction tr arbitrary: pool rule: never_reoffered.induct)
  case 1
  show ?case by simp
next
  case (2 p d tr)
  from "2.prems" have "item_from d \<in> set pool"
    using offered_rename_source [of d "offered p"] by simp
  moreover from "2.prems" "2.IH" [of "remove1 (item_from d) pool"]
  have "set (map item_from (rename_answers tr)) \<subseteq> set (remove1 (item_from d) pool)" by simp
  ultimately show ?case using set_remove1_subset [of "item_from d" pool] by auto
qed auto

lemma pools_follow_matched_once:
  "pools_follow pool tr \<Longrightarrow> chosen_from_offered tr \<Longrightarrow> distinct pool \<Longrightarrow>
   distinct (map item_from (rename_answers tr))"
proof (induction tr arbitrary: pool rule: never_reoffered.induct)
  case 1
  show ?case by simp
next
  case (2 p d tr)
  from "2.prems" have f: "pools_follow (remove1 (item_from d) pool) tr" "chosen_from_offered tr"
    "distinct (remove1 (item_from d) pool)" by simp_all
  from pools_follow_sources [OF f(1,2)] "2.prems"(3)
  have "item_from d \<notin> set (map item_from (rename_answers tr))" by auto
  with "2.IH" [OF f] show ?case by simp
qed auto

lemma pools_follow_length:
  "pools_follow pool tr \<Longrightarrow> chosen_from_offered tr \<Longrightarrow>
   length (final_pool pool (rename_answers tr)) + length (rename_answers tr) = length pool"
proof (induction tr arbitrary: pool rule: never_reoffered.induct)
  case 1
  show ?case by simp
next
  case (2 p d tr)
  from "2.prems" have "item_from d \<in> set pool"
    using offered_rename_source [of d "offered p"] by simp
  then have "length (remove1 (item_from d) pool) + 1 = length pool"
    by (simp add: length_remove1) (metis length_pos_if_in_set Suc_pred)
  with "2.prems" "2.IH" [of "remove1 (item_from d) pool"] show ?case by simp
qed auto

lemma final_pool_distinct:
  "distinct pool \<Longrightarrow> final_pool pool ds = filter (\<lambda>x. x \<notin> item_from ` set ds) pool"
proof (induction ds arbitrary: pool)
  case Nil
  show ?case by simp
next
  case (Cons d ds)
  have "remove1 (item_from d) pool = filter (\<lambda>x. x \<noteq> item_from d) pool"
    using Cons.prems by (simp add: distinct_remove1_removeAll removeAll_filter_not_eq) metis
  with Cons show ?case by (auto intro: filter_cong)
qed

lemma final_pool_keeps:
  "x \<in> set pool \<Longrightarrow> x \<notin> item_from ` set ds \<Longrightarrow> x \<in> set (final_pool pool ds)"
  by (induction ds arbitrary: pool) auto

lemma final_pool_subset: "set (final_pool pool ds) \<subseteq> set pool"
proof (induction ds arbitrary: pool)
  case Nil
  show ?case by simp
next
  case (Cons d ds)
  then show ?case using set_remove1_subset [of "item_from d" pool] by fastforce
qed

lemma added_append [simp]: "added log (log @ tr) = tr"
  by (simp add: added_def)

lemma added_same [simp]: "added log log = []"
  by (simp add: added_def)

lemma run_trace_ok:
  assumes "behaves orc mk keep body" and "\<And>c pd. offered (mk c pd) = pd"
    and "run_candidates body cs (res, pool) log = (Inr (res', pool'), log')"
  shows "\<exists>tr. log' = log @ tr \<and> pools_follow pool tr \<and> length tr = length cs
    \<and> pool' = final_pool pool (rename_answers tr)
    \<and> length (created res') + length (rename_answers tr) = length (created res) + length cs
    \<and> renamed res' = renamed res @ filter keep (rename_answers tr)
    \<and> deleted res' = deleted res"
  using run_trace [OF assms] by auto

lemma run_trace_exit:
  assumes "behaves orc mk keep body" and "\<And>c pd. offered (mk c pd) = pd"
    and "run_candidates body cs (res, pool) log = (Inl e, log')"
  shows "\<exists>tr. log' = log @ tr \<and> pools_follow pool tr \<and> e = ProcessExit 1 \<and> tr \<noteq> []
    \<and> snd (last tr) = Aborted"
  using run_trace [OF assms] by auto

lemma promptColumnsConflicts_ok:
  assumes "promptColumnsConflicts orc tableName new missing log = (Inr res, log')"
  shows "\<exists>tr. log' = log @ tr \<and> pools_follow missing tr
     \<and> deleted res = final_pool missing (rename_answers tr)
     \<and> length (created res) + length (rename_answers tr) = length new
     \<and> renamed res = rename_answers tr"
proof (cases "new = [] \<or> missing = []")
  case True
  with assms show ?thesis
    by (intro exI [of _ "[]"]) (auto simp: promptColumnsConflicts_def)
next
  case False
  let ?init = "(\<lparr>created = [], renamed = [], deleted = []\<rparr>, missing)"
  from False assms obtain r p where
    r: "run_candidates (promptColumnsBody orc tableName) new ?init log = (Inr (r, p), log')"
    and res: "res = r\<lparr>deleted := deleted r @ p\<rparr>"
    by (auto simp: promptColumnsConflicts_def promptColumnsLoop_run split: sum.splits prod.splits)
  from run_trace_ok [OF columns_behaves _ r] res show ?thesis by auto
qed

lemma promptColumnsConflicts_exit:
  assumes "promptColumnsConflicts orc tableName new missing log = (Inl e, log')"
  shows "\<exists>tr. log' = log @ tr \<and> pools_follow missing tr \<and> e = ProcessExit 1 \<and> tr \<noteq> []
    \<and> snd (last tr) = Aborted"
proof -
  let ?init = "(\<lparr>created = [], renamed = [], deleted = []\<rparr>, missing)"
  from assms have
    r: "run_candidates (promptColumnsBody orc tableName) new ?init log = (Inl e, log')"
    by (auto simp: promptColumnsConflicts_def promptColumnsLoop_run split: sum.splits prod.splits if_splits)
  from run_trace_exit [OF columns_behaves _ r] show ?thesis by auto
qed


lemma promptSchemasConflict_ok:
  assumes "promptSchemasConflict orc new missing log = (Inr res, log')"
  shows "\<exists>tr. log' = log @ tr \<and> pools_follow missing tr
     \<and> deleted res = final_pool missing (rename_answers tr)
     \<and> length (created res) + length (rename_answers tr) = length new
     \<and> renamed res = rename_answers tr"
proof (cases "new = [] \<or> missing = []")
  case True
  with assms show ?thesis
    by (intro exI [of _ "[]"]) (auto simp: promptSchemasConflict_def)
next
  case False
  let ?init = "(\<lparr>created = [], renamed = [], deleted = []\<rparr>, missing)"
  from False assms obtain r p where
    r: "run_candidates (promptSchemasBody orc) new ?init log = (Inr (r, p), log')"
    and res: "res = r\<lparr>deleted := deleted r @ p\<rparr>"
    by (auto simp: promptSchemasConflict_def promptSchemasLoop_run split: sum.splits prod.splits)
  from run_trace_ok [OF schemas_behaves _ r] res show ?thesis by auto
qed

lemma promptSchemasConflict_exit:
  assumes "promptSchemasConflict orc new missing log = (Inl e, log')"
  shows "\<exists>tr. log' = log @ tr \<and> pools_follow missing tr \<and> e = ProcessExit 1 \<and> tr \<noteq> []
    \<and> snd (last tr) = Aborted"
proof -
  let ?init = "(\<lparr>created = [], renamed = [], deleted = []\<rparr>, missing)"
  from assms have
    r: "run_candidates (promptSchemasBody orc) new ?init log = (Inl e, log')"
    by (auto simp: promptSchemasConflict_def promptSchemasLoop_run split: sum.splits prod.splits if_splits)
  from run_trace_exit [OF schemas_behaves _ r] show ?thesis by auto
qed

lemma promptNamedWithSchemasConflict_ok:
  assumes "promptNamedWithSchemasConflict orc heap new missing entity log = (Inr res, log')"
  shows "\<exists>tr. log' = log @ tr \<and> pools_follow missing tr
     \<and> deleted res = final_pool missing (rename_answers tr)
     \<and> length (created res) + length (rename_answers tr) = length new
     \<and> renamed res =
         filter (\<lambda>d. name (heap (item_from d)) \<noteq> name (heap (item_to d))) (rename_answers tr)"
proof (cases "new = [] \<or> missing = []")
  case True
  with assms show ?thesis
    by (intro exI [of _ "[]"]) (auto simp: promptNamedWithSchemasConflict_def)
next
  case False
  let ?init = "(\<lparr>created = [], renamed = [], deleted = [], moved = []\<rparr>, missing)"
  from False assms obtain r p where
    r: "run_candidates (promptNamedWithSchemasBody orc heap entity) new ?init log = (Inr (r, p), log')"
    and res: "res = r\<lparr>deleted := deleted r @ p\<rparr>"
    by (auto simp: promptNamedWithSchemasConflict_def promptNamedWithSchemasLoop_run
        split: sum.splits prod.splits)
  from run_trace_ok [OF named_behaves _ r] res show ?thesis by auto
qed

lemma promptNamedWithSchemasConflict_exit:
  assumes "promptNamedWithSchemasConflict orc heap new missing entity log = (Inl e, log')"
  shows "\<exists>tr. log' = log @ tr \<and> pools_follow missing tr \<and> e = ProcessExit 1 \<and> tr \<noteq> []
    \<and> snd (last tr) = Aborted"
proof -
  let ?init = "(\<lparr>created = [], renamed = [], deleted = [], moved = []\<rparr>, missing)"
  from assms have
    r: "run_candidates (promptNamedWithSchemasBody orc heap entity) new ?init log = (Inl e, log')"
    by (auto simp: promptNamedWithSchemasConflict_def promptNamedWithSchemasLoop_run
        split: sum.splits prod.splits if_splits)
  from run_trace_exit [OF named_behaves _ r] show ?thesis by auto
qed

text \<open>The same facts for any outcome of a call.\<close>

lemma promptColumnsConflicts_pools:
  "promptColumnsConflicts orc tableName new missing log = (out, log') \<Longrightarrow>
   \<exists>tr. log' = log @ tr \<and> pools_follow missing tr"
  using promptColumnsConflicts_ok promptColumnsConflicts_exit by (cases out) blast+

lemma promptSchemasConflict_pools:
  "promptSchemasConflict orc new missing log = (out, log') \<Longrightarrow>
   \<exists>tr. log' = log @ tr \<and> pools_follow missing tr"
  using promptSchemasConflict_ok promptSchemasConflict_exit by (cases out) blast+

lemma promptNamedWithSchemasConflict_pools:
  "promptNamedWithSchemasConflict orc heap new missing entity log = (out, log') \<Longrightarrow>
   \<exists>tr. log' = log @ tr \<and> pools_follow missing tr"
  using promptNamedWithSchemasConflict_ok promptNamedWithSchemasConflict_exit by (cases out) blast+

lemma final_pool_consumed:
  "distinct pool \<Longrightarrow> d \<in> set ds \<Longrightarrow> item_from d \<notin> set (final_pool pool ds)"
  by (simp add: final_pool_distinct)

text \<open>The equations that evaluate a resolver on a concrete input.\<close>

lemmas eval_defs = promptColumnsConflicts_def promptColumnsBody_def promptColumnsLoop.simps
  promptSchemasConflict_def promptSchemasBody_def promptSchemasLoop.simps
  promptNamedWithSchemasConflict_def promptNamedWithSchemasBody_def promptNamedWithSchemasLoop.simps
  render_def scripted_def always_def delete_and_compact_def delete_index_def filter_Boolean_def
  example_heap_def orElse_def falsy_def Let_def added_def options_def

lemma columns_example_eq:
  "columns_example =
     (Inr \<lparr>created = [2], renamed = [\<lparr>item_from = 10, item_to = 1\<rparr>], deleted = [11]\<rparr>,
      [(ResolveColumnSelect ''users'' 1
          [Plain 1, Rename \<lparr>item_from = 10, item_to = 1\<rparr>, Rename \<lparr>item_from = 11, item_to = 1\<rparr>],
        Submitted (Rename \<lparr>item_from = 10, item_to = 1\<rparr>)),
       (ResolveColumnSelect ''users'' 2 [Plain 2, Rename \<lparr>item_from = 11, item_to = 2\<rparr>],
        Submitted (Plain 2))])"
  by (simp add: columns_example_def eval_defs)

lemma schemas_example_eq:
  "schemas_example =
     (Inr \<lparr>created = [2], renamed = [\<lparr>item_from = 10, item_to = 1\<rparr>], deleted = [11]\<rparr>,
      [(ResolveSchemasSelect 1
          [Plain 1, Rename \<lparr>item_from = 10, item_to = 1\<rparr>, Rename \<lparr>item_from = 11, item_to = 1\<rparr>],
        Submitted (Rename \<lparr>item_from = 10, item_to = 1\<rparr>)),
       (ResolveSchemasSelect 2 [Plain 2, Rename \<lparr>item_from = 11, item_to = 2\<rparr>],
        Submitted (Plain 2))])"
  by (simp add: schemas_example_def eval_defs)

lemma named_example_eq:
  "named_example =
     (Inr \<lparr>created = [6], renamed = [], deleted = [5],
           moved = [\<lparr>moved_name = ''users'', schemaFrom = ''legacy'', schemaTo = ''app''\<rparr>]\<rparr>,
      [(ResolveSelect 1
          [Plain 1, Rename \<lparr>item_from = 2, item_to = 1\<rparr>, Rename \<lparr>item_from = 5, item_to = 1\<rparr>]
          Table,
        Submitted (Rename \<lparr>item_from = 2, item_to = 1\<rparr>)),
       (ResolveSelect 6 [Plain 6, Rename \<lparr>item_from = 5, item_to = 6\<rparr>] Table,
        Submitted (Plain 6))])"
  by (simp add: named_example_def eval_defs)

lemma named_body_moved:
  "promptNamedWithSchemasBody orc heap entity c (res, pool) log = (Inr (res', pool'), log') \<Longrightarrow>
   \<exists>i. log' = log @ [i] \<and>
     moved res' = moved res @
       map (\<lambda>d. \<lparr>moved_name = name (heap (item_from d)),
                  schemaFrom = orElse (schema (heap (item_from d))) ''public'',
                  schemaTo = orElse (schema (heap (item_to d))) ''public''\<rparr>)
         (filter (\<lambda>d. schema (heap (item_from d)) \<noteq> schema (heap (item_to d)))
            (rename_answers [i]))"
  by (auto simp: promptNamedWithSchemasBody_def render_def Let_def
      split: RenderResult.splits PromptData.splits)

lemma named_run_moved:
  "run_candidates (promptNamedWithSchemasBody orc heap entity) cs (res, pool) log
     = (Inr (res', pool'), log') \<Longrightarrow>
   \<exists>tr. log' = log @ tr \<and>
     moved res' = moved res @
       map (\<lambda>d. \<lparr>moved_name = name (heap (item_from d)),
                  schemaFrom = orElse (schema (heap (item_from d))) ''public'',
                  schemaTo = orElse (schema (heap (item_to d))) ''public''\<rparr>)
         (filter (\<lambda>d. schema (heap (item_from d)) \<noteq> schema (heap (item_to d)))
            (rename_answers tr))"
proof (induction cs arbitrary: res pool log)
  case Nil
  then show ?case by auto
next
  case (Cons c cs)
  from Cons.prems obtain res1 pool1 log1 where
    step: "promptNamedWithSchemasBody orc heap entity c (res, pool) log = (Inr (res1, pool1), log1)"
    and rest: "run_candidates (promptNamedWithSchemasBody orc heap entity) cs (res1, pool1) log1
      = (Inr (res', pool'), log')"
    by (auto split: prod.splits sum.splits)
  from named_body_moved [OF step] obtain i where i: "log1 = log @ [i]"
    "moved res1 = moved res @
       map (\<lambda>d. \<lparr>moved_name = name (heap (item_from d)),
                  schemaFrom = orElse (schema (heap (item_from d))) ''public'',
                  schemaTo = orElse (schema (heap (item_to d))) ''public''\<rparr>)
         (filter (\<lambda>d. schema (heap (item_from d)) \<noteq> schema (heap (item_to d)))
            (rename_answers [i]))" by blast
  from Cons.IH [OF rest] obtain tr where tr: "log' = log1 @ tr"
    "moved res' = moved res1 @
       map (\<lambda>d. \<lparr>moved_name = name (heap (item_from d)),
                  schemaFrom = orElse (schema (heap (item_from d))) ''public'',
                  schemaTo = orElse (schema (heap (item_to d))) ''public''\<rparr>)
         (filter (\<lambda>d. schema (heap (item_from d)) \<noteq> schema (heap (item_to d)))
            (rename_answers tr))" by blast
  have "rename_answers (i # tr) = rename_answers [i] @ rename_answers tr"
    using rename_answers_append [of "[i]" tr] by simp
  with i tr show ?case by (intro exI [of _ "i # tr"]) simp
qed

lemma promptNamedWithSchemasConflict_moved:
  assumes "promptNamedWithSchemasConflict orc heap new missing entity log = (Inr res, log')"
  shows "moved res =
       map (\<lambda>d. \<lparr>moved_name = name (heap (item_from d)),
                  schemaFrom = orElse (schema (heap (item_from d))) ''public'',
                  schemaTo = orElse (schema (heap (item_to d))) ''public''\<rparr>)
         (filter (\<lambda>d. schema (heap (item_from d)) \<noteq> schema (heap (item_to d)))
            (rename_answers (added log log')))"
proof (cases "new = [] \<or> missing = []")
  case True
  with assms show ?thesis by (auto simp: promptNamedWithSchemasConflict_def)
next
  case False
  let ?init = "(\<lparr>created = [], renamed = [], deleted = [], moved = []\<rparr>, missing)"
  from False assms obtain r p where
    r: "run_candidates (promptNamedWithSchemasBody orc heap entity) new ?init log = (Inr (r, p), log')"
    and res: "res = r\<lparr>deleted := deleted r @ p\<rparr>"
    by (auto simp: promptNamedWithSchemasConflict_def promptNamedWithSchemasLoop_run
        split: sum.splits prod.splits)
  from named_run_moved [OF r] res show ?thesis by auto
qed

lemma filter_isDirectory_ok:
  "folder w = Some es \<Longrightarrow> set names \<subseteq> fst ` set es \<Longrightarrow>
   filter_isDirectory names w = (Inr (filter (\<lambda>n. is_directory (map_of es n)) names), w)"
proof (induction names)
  case Nil
  show ?case by (simp add: io_return_def)
next
  case (Cons it its)
  from Cons.prems obtain node where "map_of es it = Some node"
    by (cases "map_of es it") (auto simp: map_of_eq_None_iff)
  with Cons show ?case
    by (cases node) (auto simp: io_bind_def io_return_def lstatSync_isDirectory_def is_directory_def)
qed

lemma embeddedMigrations_ok:
  "folder w = Some es \<Longrightarrow>
   embeddedMigrations dm w =
     (Inr (manifest dm (filter (\<lambda>n. is_directory (map_of es n)) (sort (map fst es)))), w)"
  by (simp add: embeddedMigrations_def io_bind_def io_return_def readdirSync_def
      filter_isDirectory_ok)





lemma unit_directories_update_file:
  "\<not> is_directory (map_of es k) \<Longrightarrow>
   unit_directories (AList.update k (File d) es) = unit_directories es"
  by (induction es rule: unit_directories.induct) (auto simp: is_directory_def)

lemma writeFileSync_units:
  "units (snd (writeFileSync file d w)) = units w"
proof (cases "folder w")
  case None
  then show ?thesis by (simp add: writeFileSync_def)
next
  case (Some es)
  show ?thesis
  proof (cases "is_directory (map_of es file)")
    case True
    with Some show ?thesis
      by (auto simp: writeFileSync_def is_directory_def split: option.splits Node.splits)
  next
    case False
    with Some unit_directories_update_file [OF False, of d] show ?thesis
      by (auto simp: writeFileSync_def units_def is_directory_def split: option.splits Node.splits)
  qed
qed

lemma embeddedMigrations_world: "snd (embeddedMigrations dm w) = w"
proof (cases "folder w")
  case None
  then show ?thesis by (simp add: embeddedMigrations_def io_bind_def readdirSync_def)
next
  case (Some es)
  then show ?thesis by (simp add: embeddedMigrations_ok)
qed

lemma write_migrations_js_units: "units (snd (write_migrations_js env w)) = units w"
proof (cases "embeddedMigrations (date_millis_of env) w")
  case (Pair r w')
  with embeddedMigrations_world [of "date_millis_of env" w] have "w' = w" by simp
  with Pair show ?thesis
    by (cases r) (simp_all add: write_migrations_js_def io_bind_def writeFileSync_units)
qed

lemma write_migrations_js_ok:
  assumes "folder w = Some es" "\<not> is_directory (map_of es ''migrations.js'')"
  shows "write_migrations_js env w =
    (Inr (), w\<lparr>folder := Some (AList.update ''migrations.js''
       (File (manifest (date_millis_of env)
          (filter (\<lambda>n. is_directory (map_of es n)) (sort (map fst es))))) es)\<rparr>)"
  using assms
  by (auto simp: write_migrations_js_def io_bind_def embeddedMigrations_ok writeFileSync_def
      is_directory_def split: option.splits Node.splits)

lemma write_migrations_js_frame:
  "console (snd (write_migrations_js env w)) = console w
   \<and> prompts (snd (write_migrations_js env w)) = prompts w
   \<and> (folder (snd (write_migrations_js env w)) = folder w
      \<or> (\<exists>es js. folder w = Some es
           \<and> folder (snd (write_migrations_js env w)) =
               Some (AList.update ''migrations.js'' (File js) es)))"
proof (cases "embeddedMigrations (date_millis_of env) w")
  case (Pair r w')
  with embeddedMigrations_world [of "date_millis_of env" w] have "w' = w" by simp
  with Pair show ?thesis
    by (cases r)
      (auto simp: write_migrations_js_def io_bind_def writeFileSync_def
        split: option.splits Node.splits)
qed

lemma write_migrations_js_fails:
  "folder w = None \<Longrightarrow> write_migrations_js env w = (Inl ENOENT, w)"
  "folder w = Some es \<Longrightarrow> is_directory (map_of es ''migrations.js'') \<Longrightarrow>
   write_migrations_js env w = (Inl EISDIR, w)"
proof -
  show "folder w = None \<Longrightarrow> write_migrations_js env w = (Inl ENOENT, w)"
    by (simp add: write_migrations_js_def io_bind_def embeddedMigrations_def readdirSync_def)
  show "folder w = Some es \<Longrightarrow> is_directory (map_of es ''migrations.js'') \<Longrightarrow>
   write_migrations_js env w = (Inl EISDIR, w)"
    by (auto simp: write_migrations_js_def io_bind_def embeddedMigrations_ok writeFileSync_def
        is_directory_def split: option.splits Node.splits)
qed


lemma no_abort_append [simp]: "no_abort (tr @ tr') = (no_abort tr \<and> no_abort tr')"
  by (induction tr rule: no_abort.induct) auto

lemma ends_in_abort_Cons:
  "ends_in_abort ((p, a) # tr) = (if a = Aborted then tr = [] else ends_in_abort tr)"
proof (cases tr)
  case Nil
  show ?thesis by (simp add: Nil)
next
  case (Cons i tr')
  obtain q b where "i = (q, b)" by (cases i)
  with Cons show ?thesis by simp
qed

lemma ends_in_abort_append:
  "no_abort tr \<Longrightarrow> ends_in_abort (tr @ tr') = ends_in_abort tr'"
  by (induction tr rule: no_abort.induct) (auto simp: ends_in_abort_Cons)

lemma ends_in_abort_not_no_abort: "ends_in_abort tr \<Longrightarrow> \<not> no_abort tr"
  by (induction tr rule: no_abort.induct) (auto simp: ends_in_abort_Cons split: if_splits)

lemma run_abort:
  assumes b: "behaves orc mk keep body"
  shows "run_candidates body cs (res, pool) log = (out, log') \<Longrightarrow>
    \<exists>tr. log' = log @ tr \<and>
      (case out of Inl e \<Rightarrow> e = ProcessExit 1 \<and> ends_in_abort tr | Inr st' \<Rightarrow> no_abort tr)"
proof (induction cs arbitrary: res pool log)
  case Nil
  then show ?case by auto
next
  case (Cons c cs)
  from b show ?case
  proof (cases rule: behaves_cases [where c = c and res = res and pool = pool and log = log])
    case abort
    with Cons.prems show ?thesis
      by (intro exI [of _ "[(mk c (options c pool), Aborted)]"]) auto
  next
    case (plain x res')
    with Cons.prems have "run_candidates body cs (res', pool)
        (log @ [(mk c (options c pool), Submitted (Plain x))]) = (out, log')"
      by simp
    from Cons.IH [OF this] obtain tr where
      "log' = (log @ [(mk c (options c pool), Submitted (Plain x))]) @ tr"
      "case out of Inl e \<Rightarrow> e = ProcessExit 1 \<and> ends_in_abort tr | Inr st' \<Rightarrow> no_abort tr"
      by blast
    then show ?thesis
      by (intro exI [of _ "(mk c (options c pool), Submitted (Plain x)) # tr"])
        (auto simp: ends_in_abort_Cons split: sum.splits)
  next
    case (rename d res')
    with Cons.prems have "run_candidates body cs (res', remove1 (item_from d) pool)
        (log @ [(mk c (options c pool), Submitted (Rename d))]) = (out, log')"
      by simp
    from Cons.IH [OF this] obtain tr where
      "log' = (log @ [(mk c (options c pool), Submitted (Rename d))]) @ tr"
      "case out of Inl e \<Rightarrow> e = ProcessExit 1 \<and> ends_in_abort tr | Inr st' \<Rightarrow> no_abort tr"
      by blast
    then show ?thesis
      by (intro exI [of _ "(mk c (options c pool), Submitted (Rename d)) # tr"])
        (auto simp: ends_in_abort_Cons split: sum.splits)
  qed
qed

lemma promptColumnsConflicts_abort:
  assumes "promptColumnsConflicts orc tableName new missing log = (out, log')"
  shows "\<exists>tr. log' = log @ tr \<and> exit_or_clean out tr"
proof (cases "new = [] \<or> missing = []")
  case True
  with assms show ?thesis
    by (intro exI [of _ "[]"]) (auto simp: promptColumnsConflicts_def exit_or_clean_def)
next
  case False
  let ?init = "(\<lparr>created = [], renamed = [], deleted = []\<rparr>, missing)"
  obtain o1 l1 where r: "run_candidates (promptColumnsBody orc tableName) new ?init log = (o1, l1)"
    by (cases "run_candidates (promptColumnsBody orc tableName) new ?init log")
  from run_abort [OF columns_behaves r] obtain tr where
    "l1 = log @ tr" "case o1 of Inl e \<Rightarrow> e = ProcessExit 1 \<and> ends_in_abort tr | Inr st' \<Rightarrow> no_abort tr"
    by blast
  with False assms r show ?thesis
    by (intro exI [of _ tr])
      (auto simp: promptColumnsConflicts_def promptColumnsLoop_run exit_or_clean_def
        split: sum.splits prod.splits)
qed

lemma promptSchemasConflict_abort:
  assumes "promptSchemasConflict orc new missing log = (out, log')"
  shows "\<exists>tr. log' = log @ tr \<and> exit_or_clean out tr"
proof (cases "new = [] \<or> missing = []")
  case True
  with assms show ?thesis
    by (intro exI [of _ "[]"]) (auto simp: promptSchemasConflict_def exit_or_clean_def)
next
  case False
  let ?init = "(\<lparr>created = [], renamed = [], deleted = []\<rparr>, missing)"
  obtain o1 l1 where r: "run_candidates (promptSchemasBody orc) new ?init log = (o1, l1)"
    by (cases "run_candidates (promptSchemasBody orc) new ?init log")
  from run_abort [OF schemas_behaves r] obtain tr where
    "l1 = log @ tr" "case o1 of Inl e \<Rightarrow> e = ProcessExit 1 \<and> ends_in_abort tr | Inr st' \<Rightarrow> no_abort tr"
    by blast
  with False assms r show ?thesis
    by (intro exI [of _ tr])
      (auto simp: promptSchemasConflict_def promptSchemasLoop_run exit_or_clean_def
        split: sum.splits prod.splits)
qed

lemma promptNamedWithSchemasConflict_abort:
  assumes "promptNamedWithSchemasConflict orc heap new missing entity log = (out, log')"
  shows "\<exists>tr. log' = log @ tr \<and> exit_or_clean out tr"
proof (cases "new = [] \<or> missing = []")
  case True
  with assms show ?thesis
    by (intro exI [of _ "[]"]) (auto simp: promptNamedWithSchemasConflict_def exit_or_clean_def)
next
  case False
  let ?init = "(\<lparr>created = [], renamed = [], deleted = [], moved = []\<rparr>, missing)"
  obtain o1 l1 where
    r: "run_candidates (promptNamedWithSchemasBody orc heap entity) new ?init log = (o1, l1)"
    by (cases "run_candidates (promptNamedWithSchemasBody orc heap entity) new ?init log")
  from run_abort [OF named_behaves r] obtain tr where
    "l1 = log @ tr" "case o1 of Inl e \<Rightarrow> e = ProcessExit 1 \<and> ends_in_abort tr | Inr st' \<Rightarrow> no_abort tr"
    by blast
  with False assms r show ?thesis
    by (intro exI [of _ tr])
      (auto simp: promptNamedWithSchemasConflict_def promptNamedWithSchemasLoop_run
        exit_or_clean_def split: sum.splits prod.splits)
qed

lemma schemasResolver_abort:
  "schemasResolver orc input log = (out, log') \<Longrightarrow> \<exists>tr. log' = log @ tr \<and> exit_or_clean out tr"
  using promptSchemasConflict_abort [of orc "input_created input" "input_deleted input" log]
  by (auto simp: schemasResolver_def exit_or_clean_def split: prod.splits sum.splits)

lemma enumsResolver_abort:
  "enumsResolver orc heap input log = (out, log') \<Longrightarrow> \<exists>tr. log' = log @ tr \<and> exit_or_clean out tr"
  using promptNamedWithSchemasConflict_abort
    [of orc heap "input_created input" "input_deleted input" Enum log]
  by (auto simp: enumsResolver_def exit_or_clean_def split: prod.splits sum.splits)

lemma sequencesResolver_abort:
  "sequencesResolver orc heap input log = (out, log') \<Longrightarrow>
   \<exists>tr. log' = log @ tr \<and> exit_or_clean out tr"
  using promptNamedWithSchemasConflict_abort
    [of orc heap "input_created input" "input_deleted input" Sequence log]
  by (auto simp: sequencesResolver_def exit_or_clean_def split: prod.splits sum.splits)

lemma tablesResolver_abort:
  "tablesResolver orc heap input log = (out, log') \<Longrightarrow> \<exists>tr. log' = log @ tr \<and> exit_or_clean out tr"
  using promptNamedWithSchemasConflict_abort
    [of orc heap "input_created input" "input_deleted input" Table log]
  by (auto simp: tablesResolver_def exit_or_clean_def split: prod.splits sum.splits)

lemma columnsResolver_abort:
  "columnsResolver orc input log = (out, log') \<Longrightarrow> \<exists>tr. log' = log @ tr \<and> exit_or_clean out tr"
  using promptColumnsConflicts_abort
    [of orc "input_tableName input" "input_created input" "input_deleted input" log]
  by (auto simp: columnsResolver_def exit_or_clean_def split: prod.splits sum.splits)

lemma run_differ_abort:
  "run_differ orc heap d log = (out, log') \<Longrightarrow> \<exists>tr. log' = log @ tr \<and> exit_or_clean out tr"
proof (induction d arbitrary: log)
  case (Finish a)
  then show ?case by (intro exI [of _ "[]"]) (auto simp: exit_or_clean_def)
next
  case (Fail e)
  then show ?case by (intro exI [of _ "[]"]) (auto simp: exit_or_clean_def)
next
  case (AskSchemas input k)
  obtain o1 l1 where r: "schemasResolver orc input log = (o1, l1)"
    by (cases "schemasResolver orc input log")
  from schemasResolver_abort [OF r] obtain tr1 where t1: "l1 = log @ tr1" "exit_or_clean o1 tr1"
    by blast
  show ?case
  proof (cases o1)
    case (Inl x)
    with r t1 AskSchemas.prems show ?thesis
      by (intro exI [of _ tr1]) (auto simp: exit_or_clean_def)
  next
    case (Inr res)
    with r AskSchemas.prems have "run_differ orc heap (k res) l1 = (out, log')" by simp
    from AskSchemas.IH [OF _ this] obtain tr2 where "log' = l1 @ tr2" "exit_or_clean out tr2"
      by blast
    with t1 Inr show ?thesis
      by (intro exI [of _ "tr1 @ tr2"])
        (auto simp: exit_or_clean_def ends_in_abort_append split: sum.splits)
  qed
next
  case (AskEnums input k)
  obtain o1 l1 where r: "enumsResolver orc heap input log = (o1, l1)"
    by (cases "enumsResolver orc heap input log")
  from enumsResolver_abort [OF r] obtain tr1 where t1: "l1 = log @ tr1" "exit_or_clean o1 tr1"
    by blast
  show ?case
  proof (cases o1)
    case (Inl x)
    with r t1 AskEnums.prems show ?thesis
      by (intro exI [of _ tr1]) (auto simp: exit_or_clean_def)
  next
    case (Inr res)
    with r AskEnums.prems have "run_differ orc heap (k res) l1 = (out, log')" by simp
    from AskEnums.IH [OF _ this] obtain tr2 where "log' = l1 @ tr2" "exit_or_clean out tr2"
      by blast
    with t1 Inr show ?thesis
      by (intro exI [of _ "tr1 @ tr2"])
        (auto simp: exit_or_clean_def ends_in_abort_append split: sum.splits)
  qed
next
  case (AskSequences input k)
  obtain o1 l1 where r: "sequencesResolver orc heap input log = (o1, l1)"
    by (cases "sequencesResolver orc heap input log")
  from sequencesResolver_abort [OF r] obtain tr1 where t1: "l1 = log @ tr1" "exit_or_clean o1 tr1"
    by blast
  show ?case
  proof (cases o1)
    case (Inl x)
    with r t1 AskSequences.prems show ?thesis
      by (intro exI [of _ tr1]) (auto simp: exit_or_clean_def)
  next
    case (Inr res)
    with r AskSequences.prems have "run_differ orc heap (k res) l1 = (out, log')" by simp
    from AskSequences.IH [OF _ this] obtain tr2 where "log' = l1 @ tr2" "exit_or_clean out tr2"
      by blast
    with t1 Inr show ?thesis
      by (intro exI [of _ "tr1 @ tr2"])
        (auto simp: exit_or_clean_def ends_in_abort_append split: sum.splits)
  qed
next
  case (AskTables input k)
  obtain o1 l1 where r: "tablesResolver orc heap input log = (o1, l1)"
    by (cases "tablesResolver orc heap input log")
  from tablesResolver_abort [OF r] obtain tr1 where t1: "l1 = log @ tr1" "exit_or_clean o1 tr1"
    by blast
  show ?case
  proof (cases o1)
    case (Inl x)
    with r t1 AskTables.prems show ?thesis
      by (intro exI [of _ tr1]) (auto simp: exit_or_clean_def)
  next
    case (Inr res)
    with r AskTables.prems have "run_differ orc heap (k res) l1 = (out, log')" by simp
    from AskTables.IH [OF _ this] obtain tr2 where "log' = l1 @ tr2" "exit_or_clean out tr2"
      by blast
    with t1 Inr show ?thesis
      by (intro exI [of _ "tr1 @ tr2"])
        (auto simp: exit_or_clean_def ends_in_abort_append split: sum.splits)
  qed
next
  case (AskColumns input k)
  obtain o1 l1 where r: "columnsResolver orc input log = (o1, l1)"
    by (cases "columnsResolver orc input log")
  from columnsResolver_abort [OF r] obtain tr1 where t1: "l1 = log @ tr1" "exit_or_clean o1 tr1"
    by blast
  show ?case
  proof (cases o1)
    case (Inl x)
    with r t1 AskColumns.prems show ?thesis
      by (intro exI [of _ tr1]) (auto simp: exit_or_clean_def)
  next
    case (Inr res)
    with r AskColumns.prems have "run_differ orc heap (k res) l1 = (out, log')" by simp
    from AskColumns.IH [OF _ this] obtain tr2 where "log' = l1 @ tr2" "exit_or_clean out tr2"
      by blast
    with t1 Inr show ?thesis
      by (intro exI [of _ "tr1 @ tr2"])
        (auto simp: exit_or_clean_def ends_in_abort_append split: sum.splits)
  qed
qed

lemma keeps_return [simp]: "keeps_prompts (io_return a)"
  by (simp add: keeps_prompts_def io_return_def)

lemma keeps_bind:
  "keeps_prompts m \<Longrightarrow> (\<And>a. keeps_prompts (f a)) \<Longrightarrow> keeps_prompts (io_bind m f)"
  by (auto simp: keeps_prompts_def io_bind_def split: prod.splits sum.splits)
    (metis snd_conv)+

lemma keeps_print [simp]: "keeps_prompts (print line)"
  by (simp add: keeps_prompts_def print_def)

lemma keeps_readdirSync [simp]: "keeps_prompts readdirSync"
  by (simp add: keeps_prompts_def readdirSync_def split: option.splits)

lemma keeps_lstatSync [simp]: "keeps_prompts (lstatSync_isDirectory it)"
  by (simp add: keeps_prompts_def lstatSync_isDirectory_def split: option.splits Node.splits)

lemma keeps_filter [simp]: "keeps_prompts (filter_isDirectory names)"
  by (induction names) (auto intro!: keeps_bind)

lemma keeps_mkdirSync [simp]: "keeps_prompts (mkdirSync_recursive tag)"
  by (simp add: keeps_prompts_def mkdirSync_recursive_def split: option.splits Node.splits)

lemma keeps_writeFileSync_in [simp]: "keeps_prompts (writeFileSync_in tag file d)"
  by (simp add: keeps_prompts_def writeFileSync_in_def split: option.splits Node.splits)

lemma keeps_writeFileSync [simp]: "keeps_prompts (writeFileSync file d)"
  by (simp add: keeps_prompts_def writeFileSync_def split: option.splits Node.splits)

lemma keeps_embeddedMigrations [simp]: "keeps_prompts (embeddedMigrations dm)"
  by (auto simp: embeddedMigrations_def intro!: keeps_bind)

lemma keeps_write_migrations_js [simp]: "keeps_prompts (write_migrations_js env)"
  by (auto simp: write_migrations_js_def intro!: keeps_bind)

lemma keeps_writeResult: "keeps_prompts (writeResult env args)"
  by (auto simp: writeResult_def writeResult_none_def writeResult_unit_def Let_def
      intro!: keeps_bind)

lemma catch_and_log_prompts:
  "keeps_prompts m \<Longrightarrow> prompts (snd (catch_and_log m w)) = prompts w"
  by (auto simp: keeps_prompts_def catch_and_log_def split: prod.splits sum.splits)
    (metis snd_conv)+

lemma command_abort:
  assumes cmd: "\<And>w. cmd w =
     (if custom then catch_and_log (writeResult env args1) w
      else
        case run_differ orc heap differ (prompts w) of
          (Inl exit, log') \<Rightarrow> (Inl exit, w\<lparr>prompts := log'\<rparr>)
        | (Inr (Inl e), log') \<Rightarrow>
            (Inr (), w\<lparr>prompts := log', console := console w @ [ErrorLogged e]\<rparr>)
        | (Inr (Inr result), log') \<Rightarrow>
            catch_and_log (writeResult env (args2 result)) (w\<lparr>prompts := log'\<rparr>))"
    and ab: "\<not> no_abort (added (prompts w) (prompts (snd (cmd w))))"
  shows "fst (cmd w) = Inl (ProcessExit 1)
       \<and> ends_in_abort (added (prompts w) (prompts (snd (cmd w))))
       \<and> folder (snd (cmd w)) = folder w \<and> console (snd (cmd w)) = console w"
proof (cases custom)
  case True
  with cmd [of w] catch_and_log_prompts [OF keeps_writeResult, of env args1 w] ab
  show ?thesis by simp
next
  case False
  obtain o1 l1 where r: "run_differ orc heap differ (prompts w) = (o1, l1)"
    by (cases "run_differ orc heap differ (prompts w)")
  from run_differ_abort [OF r] obtain tr where tr: "l1 = prompts w @ tr" "exit_or_clean o1 tr"
    by blast
  show ?thesis
  proof (cases o1)
    case (Inl x)
    with False cmd [of w] r tr show ?thesis by (simp add: exit_or_clean_def)
  next
    case (Inr v)
    with tr have clean: "no_abort tr" by (simp add: exit_or_clean_def)
    show ?thesis
    proof (cases v)
      case (Inl e)
      with Inr False cmd [of w] r tr clean ab show ?thesis by simp
    next
      case inner: (Inr result)
      from catch_and_log_prompts [OF keeps_writeResult, of env "args2 result" "w\<lparr>prompts := l1\<rparr>"]
      have "prompts (snd (cmd w)) = l1" using inner Inr False cmd [of w] r by simp
      with tr clean ab show ?thesis by simp
    qed
  qed
qed

lemmas command_eval = prepareAndMigratePg_def prepareAndMigrateMysql_def
  prepareAndMigrateSqlite_def schemasResolver_def tablesResolver_def enumsResolver_def
  sequencesResolver_def columnsResolver_def example_differ_def example_config_def
  aborting_script_def example_store_def

lemma pg_example:
  "prepareAndMigratePg example_env aborting_script example_heap ''cur'' ''custom'' example_differ
     example_config example_store =
   (Inl (ProcessExit 1),
    example_store\<lparr>prompts :=
      [(ResolveSchemasSelect 1 [Plain 1, Rename \<lparr>item_from = 2, item_to = 1\<rparr>],
        Submitted (Plain 1)),
       (ResolveSelect 1
          [Plain 1, Rename \<lparr>item_from = 2, item_to = 1\<rparr>, Rename \<lparr>item_from = 5, item_to = 1\<rparr>]
          Table,
        Submitted (Rename \<lparr>item_from = 2, item_to = 1\<rparr>)),
       (ResolveSelect 6 [Plain 6, Rename \<lparr>item_from = 5, item_to = 6\<rparr>] Table, Aborted)]\<rparr>)"
  by (simp add: command_eval eval_defs)

lemma mysql_example:
  "prepareAndMigrateMysql example_env aborting_script example_heap ''cur'' ''custom'' example_differ
     example_config example_store =
   (Inl (ProcessExit 1),
    example_store\<lparr>prompts :=
      [(ResolveSchemasSelect 1 [Plain 1, Rename \<lparr>item_from = 2, item_to = 1\<rparr>],
        Submitted (Plain 1)),
       (ResolveSelect 1
          [Plain 1, Rename \<lparr>item_from = 2, item_to = 1\<rparr>, Rename \<lparr>item_from = 5, item_to = 1\<rparr>]
          Table,
        Submitted (Rename \<lparr>item_from = 2, item_to = 1\<rparr>)),
       (ResolveSelect 6 [Plain 6, Rename \<lparr>item_from = 5, item_to = 6\<rparr>] Table, Aborted)]\<rparr>)"
  by (simp add: command_eval eval_defs)

lemma sqlite_example:
  "prepareAndMigrateSqlite example_env aborting_script example_heap ''cur'' ''custom'' example_differ
     example_config example_store =
   (Inl (ProcessExit 1),
    example_store\<lparr>prompts :=
      [(ResolveSchemasSelect 1 [Plain 1, Rename \<lparr>item_from = 2, item_to = 1\<rparr>],
        Submitted (Plain 1)),
       (ResolveSelect 1
          [Plain 1, Rename \<lparr>item_from = 2, item_to = 1\<rparr>, Rename \<lparr>item_from = 5, item_to = 1\<rparr>]
          Table,
        Submitted (Rename \<lparr>item_from = 2, item_to = 1\<rparr>)),
       (ResolveSelect 6 [Plain 6, Rename \<lparr>item_from = 5, item_to = 6\<rparr>] Table, Aborted)]\<rparr>)"
  by (simp add: command_eval eval_defs)

section \<open>The resolvers: properties\<close>

text \<open>
  Claim C2. When \<^verbatim>\<open>newSet\<close> or \<^verbatim>\<open>missingSet\<close> is empty, each resolver returns
  \<^verbatim>\<open>{created: newSet, deleted: missingSet, renamed: [], moved: []}\<close> (no
  \<^verbatim>\<open>moved\<close> for the two flat resolvers) and leaves the log of interactions as it
  found it: the oracle is not asked.
\<close>

theorem fast_path_no_prompt:
  assumes "new = [] \<or> missing = []"
  shows "promptColumnsConflicts orc tableName new missing log =
           (Inr \<lparr>created = new, renamed = [], deleted = missing\<rparr>, log)
       \<and> promptSchemasConflict orc new missing log =
           (Inr \<lparr>created = new, renamed = [], deleted = missing\<rparr>, log)
       \<and> promptNamedWithSchemasConflict orc heap new missing entity log =
           (Inr \<lparr>created = new, renamed = [], deleted = missing, moved = []\<rparr>, log)"
  using assms
  by (auto simp: promptColumnsConflicts_def promptSchemasConflict_def
      promptNamedWithSchemasConflict_def)

theorem fast_path_no_prompt_witness:
  "promptColumnsConflicts (scripted [1]) ''users'' [] [10, 11::nat] [] =
     (Inr \<lparr>created = [], renamed = [], deleted = [10, 11]\<rparr>, [])
   \<and> promptSchemasConflict (scripted [1]) [] [10, 11::nat] [] =
     (Inr \<lparr>created = [], renamed = [], deleted = [10, 11]\<rparr>, [])
   \<and> promptNamedWithSchemasConflict (scripted [1]) example_heap [] [2, 5::nat] Table [] =
     (Inr \<lparr>created = [], renamed = [], deleted = [2, 5], moved = []\<rparr>, [])"
  using fast_path_no_prompt [of "[]" "[10, 11::nat]" "scripted [1]" "''users''" "[]"]
    fast_path_no_prompt [of "[]" "[2, 5::nat]" "scripted [1]" "''users''" "[]" example_heap Table]
  by simp

text \<open>
  Claim C1, as the code has it. For a call that returns, with every answer one of the
  offered options: in \<^verbatim>\<open>promptColumnsConflicts\<close> and \<^verbatim>\<open>promptSchemasConflict\<close>,
  \<open>|created| + |renamed| = |newSet|\<close> and \<open>|deleted| + |renamed| = |missingSet|\<close>. In
  \<^verbatim>\<open>promptNamedWithSchemasConflict\<close> the two equations hold with the number of rename
  answers in place of \<open>|renamed|\<close>, and \<^verbatim>\<open>renamed\<close> holds exactly the rename answers
  whose two names differ.
\<close>

theorem resolution_counts:
  "(promptColumnsConflicts orc tableName new missing log = (Inr res, log') \<longrightarrow>
      chosen_from_offered (added log log') \<longrightarrow>
        length (created res) + length (renamed res) = length new
      \<and> length (deleted res) + length (renamed res) = length missing)
 \<and> (promptSchemasConflict orc new missing log = (Inr res, log') \<longrightarrow>
      chosen_from_offered (added log log') \<longrightarrow>
        length (created res) + length (renamed res) = length new
      \<and> length (deleted res) + length (renamed res) = length missing)
 \<and> (promptNamedWithSchemasConflict orc heap new missing entity log = (Inr resm, log') \<longrightarrow>
      chosen_from_offered (added log log') \<longrightarrow>
        length (created resm) + length (rename_answers (added log log')) = length new
      \<and> length (deleted resm) + length (rename_answers (added log log')) = length missing
      \<and> renamed resm = filter (\<lambda>d. name (heap (item_from d)) \<noteq> name (heap (item_to d)))
                         (rename_answers (added log log')))"
proof (intro conjI impI)
  assume "promptColumnsConflicts orc tableName new missing log = (Inr res, log')"
    and c: "chosen_from_offered (added log log')"
  from promptColumnsConflicts_ok [OF this(1)] obtain tr where tr: "log' = log @ tr"
    "pools_follow missing tr" "deleted res = final_pool missing (rename_answers tr)"
    "length (created res) + length (rename_answers tr) = length new"
    "renamed res = rename_answers tr" by blast
  from tr show "length (created res) + length (renamed res) = length new" by simp
  from tr c pools_follow_length [of missing tr]
  show "length (deleted res) + length (renamed res) = length missing" by simp
next
  assume "promptSchemasConflict orc new missing log = (Inr res, log')"
    and c: "chosen_from_offered (added log log')"
  from promptSchemasConflict_ok [OF this(1)] obtain tr where tr: "log' = log @ tr"
    "pools_follow missing tr" "deleted res = final_pool missing (rename_answers tr)"
    "length (created res) + length (rename_answers tr) = length new"
    "renamed res = rename_answers tr" by blast
  from tr show "length (created res) + length (renamed res) = length new" by simp
  from tr c pools_follow_length [of missing tr]
  show "length (deleted res) + length (renamed res) = length missing" by simp
next
  assume "promptNamedWithSchemasConflict orc heap new missing entity log = (Inr resm, log')"
    and c: "chosen_from_offered (added log log')"
  from promptNamedWithSchemasConflict_ok [OF this(1)] obtain tr where tr: "log' = log @ tr"
    "pools_follow missing tr" "deleted resm = final_pool missing (rename_answers tr)"
    "length (created resm) + length (rename_answers tr) = length new"
    "renamed resm =
       filter (\<lambda>d. name (heap (item_from d)) \<noteq> name (heap (item_to d))) (rename_answers tr)"
    by blast
  from tr show "length (created resm) + length (rename_answers (added log log')) = length new"
    by simp
  from tr c pools_follow_length [of missing tr]
  show "length (deleted resm) + length (rename_answers (added log log')) = length missing"
    by simp
  from tr show "renamed resm = filter (\<lambda>d. name (heap (item_from d)) \<noteq> name (heap (item_to d)))
                         (rename_answers (added log log'))" by simp
qed

theorem resolution_counts_witness:
  "chosen_from_offered (added [] (snd columns_example))
   \<and> length (created (projr (fst columns_example))) + length (renamed (projr (fst columns_example)))
       = length [1, 2::nat]
   \<and> length (deleted (projr (fst columns_example))) + length (renamed (projr (fst columns_example)))
       = length [10, 11::nat]
   \<and> chosen_from_offered (added [] (snd schemas_example))
   \<and> length (created (projr (fst schemas_example))) + length (renamed (projr (fst schemas_example)))
       = length [1, 2::nat]
   \<and> length (deleted (projr (fst schemas_example))) + length (renamed (projr (fst schemas_example)))
       = length [10, 11::nat]
   \<and> chosen_from_offered (added [] (snd named_example))
   \<and> length (created (projr (fst named_example))) + length (rename_answers (added [] (snd named_example)))
       = length [1, 6::nat]
   \<and> length (deleted (projr (fst named_example))) + length (rename_answers (added [] (snd named_example)))
       = length [2, 5::nat]
   \<and> renamed (projr (fst named_example)) = []"
  using resolution_counts [of "scripted [1, 0]" "''users''" "[1, 2]" "[10, 11]" "[]"
      "projr (fst columns_example)" "snd columns_example" example_heap Table
      "projr (fst named_example)"]
    resolution_counts [of "scripted [1, 0]" "''users''" "[1, 2]" "[10, 11]" "[]"
      "projr (fst schemas_example)" "snd schemas_example" example_heap Table
      "projr (fst named_example)"]
    resolution_counts [of "scripted [1, 0]" "''users''" "[1, 6]" "[2, 5]" "[]"
      "projr (fst columns_example)" "snd named_example" example_heap Table
      "projr (fst named_example)"]
  by (simp add: columns_example_eq schemas_example_eq named_example_eq added_def)

text \<open>
  Claim C1 as stated fails for \<^verbatim>\<open>promptNamedWithSchemasConflict\<close>: table 1
  (\<^verbatim>\<open>app.users\<close>) is new, table 2 (\<^verbatim>\<open>legacy.users\<close>) is missing, and the oracle
  takes the offered rename. The pair has one name in two schemas, so it goes to
  \<^verbatim>\<open>moved\<close> only, and \<open>|created| + |renamed| = 0\<close> while \<open>|newSet| = 1\<close>.
\<close>

theorem moved_only_pair_breaks_count:
  "fst (promptNamedWithSchemasConflict (scripted [1]) example_heap [1] [2] Table []) =
     Inr \<lparr>created = [], renamed = [], deleted = [],
          moved = [\<lparr>moved_name = ''users'', schemaFrom = ''legacy'', schemaTo = ''app''\<rparr>]\<rparr>
   \<and> chosen_from_offered
        (added [] (snd (promptNamedWithSchemasConflict (scripted [1]) example_heap [1] [2] Table [])))
   \<and> length (created (projr (fst
        (promptNamedWithSchemasConflict (scripted [1]) example_heap [1] [2] Table []))))
     + length (renamed (projr (fst
        (promptNamedWithSchemasConflict (scripted [1]) example_heap [1] [2] Table []))))
     \<noteq> length [1::nat]"
  by (simp add: eval_defs)

text \<open>
  Claim C3. In the loop body of \<^verbatim>\<open>promptNamedWithSchemasConflict\<close>, which every
  iteration runs, a rename answer \<open>d\<close> (from a missing entity, to the candidate) with
  equal names and different schemas appends one entry to \<^verbatim>\<open>moved\<close> and leaves
  \<^verbatim>\<open>renamed\<close> as it was; with different names and equal schemas it appends \<open>d\<close> to
  \<^verbatim>\<open>renamed\<close> and leaves \<^verbatim>\<open>moved\<close> as it was. For a whole call that returns:
  \<^verbatim>\<open>renamed\<close> is the rename answers whose names differ, and \<^verbatim>\<open>moved\<close> has one
  entry for each rename answer whose schemas differ, both in the order of the answers.
\<close>

theorem rename_pair_moved_or_renamed:
  "(orc log (ResolveSelect c (options c pool) entity) = Submitted (Rename d) \<longrightarrow>
      (name (heap (item_from d)) = name (heap (item_to d))
         \<and> schema (heap (item_from d)) \<noteq> schema (heap (item_to d)) \<longrightarrow>
           fst (promptNamedWithSchemasBody orc heap entity c (res, pool) log) =
             Inr (res\<lparr>moved := moved res @
                    [\<lparr>moved_name = name (heap (item_from d)),
                      schemaFrom = orElse (schema (heap (item_from d))) ''public'',
                      schemaTo = orElse (schema (heap (item_to d))) ''public''\<rparr>]\<rparr>,
                  delete_and_compact pool (item_from d)))
    \<and> (name (heap (item_from d)) \<noteq> name (heap (item_to d))
         \<and> schema (heap (item_from d)) = schema (heap (item_to d)) \<longrightarrow>
           fst (promptNamedWithSchemasBody orc heap entity c (res, pool) log) =
             Inr (res\<lparr>renamed := renamed res @ [d]\<rparr>, delete_and_compact pool (item_from d))))
 \<and> (promptNamedWithSchemasConflict orc heap new missing entity log0 = (Inr res', log') \<longrightarrow>
      renamed res' =
        filter (\<lambda>d. name (heap (item_from d)) \<noteq> name (heap (item_to d)))
          (rename_answers (added log0 log'))
    \<and> moved res' =
        map (\<lambda>d. \<lparr>moved_name = name (heap (item_from d)),
                   schemaFrom = orElse (schema (heap (item_from d))) ''public'',
                   schemaTo = orElse (schema (heap (item_to d))) ''public''\<rparr>)
          (filter (\<lambda>d. schema (heap (item_from d)) \<noteq> schema (heap (item_to d)))
             (rename_answers (added log0 log'))))"
proof (intro conjI impI)
  assume a: "orc log (ResolveSelect c (options c pool) entity) = Submitted (Rename d)"
  {
    assume "name (heap (item_from d)) = name (heap (item_to d))
         \<and> schema (heap (item_from d)) \<noteq> schema (heap (item_to d))"
    with a show "fst (promptNamedWithSchemasBody orc heap entity c (res, pool) log) =
             Inr (res\<lparr>moved := moved res @
                    [\<lparr>moved_name = name (heap (item_from d)),
                      schemaFrom = orElse (schema (heap (item_from d))) ''public'',
                      schemaTo = orElse (schema (heap (item_to d))) ''public''\<rparr>]\<rparr>,
                  delete_and_compact pool (item_from d))"
      by (simp add: promptNamedWithSchemasBody_def render_def options_def Let_def)
  }
  {
    assume "name (heap (item_from d)) \<noteq> name (heap (item_to d))
         \<and> schema (heap (item_from d)) = schema (heap (item_to d))"
    with a show "fst (promptNamedWithSchemasBody orc heap entity c (res, pool) log) =
             Inr (res\<lparr>renamed := renamed res @ [d]\<rparr>, delete_and_compact pool (item_from d))"
      by (simp add: promptNamedWithSchemasBody_def render_def options_def Let_def)
  }
next
  assume r: "promptNamedWithSchemasConflict orc heap new missing entity log0 = (Inr res', log')"
  from promptNamedWithSchemasConflict_ok [OF r]
  show "renamed res' =
        filter (\<lambda>d. name (heap (item_from d)) \<noteq> name (heap (item_to d)))
          (rename_answers (added log0 log'))"
    by auto
  from promptNamedWithSchemasConflict_moved [OF r]
  show "moved res' =
        map (\<lambda>d. \<lparr>moved_name = name (heap (item_from d)),
                   schemaFrom = orElse (schema (heap (item_from d))) ''public'',
                   schemaTo = orElse (schema (heap (item_to d))) ''public''\<rparr>)
          (filter (\<lambda>d. schema (heap (item_from d)) \<noteq> schema (heap (item_to d)))
             (rename_answers (added log0 log')))" .
qed

theorem rename_pair_moved_or_renamed_witness:
  "fst (promptNamedWithSchemasBody (scripted [1]) example_heap Table 1
          (\<lparr>created = [], renamed = [], deleted = [], moved = []\<rparr>, [2]) []) =
     Inr (\<lparr>created = [], renamed = [], deleted = [],
           moved = [\<lparr>moved_name = ''users'', schemaFrom = ''legacy'', schemaTo = ''app''\<rparr>]\<rparr>, [])
   \<and> fst (promptNamedWithSchemasBody (scripted [1]) example_heap Table 6
          (\<lparr>created = [], renamed = [], deleted = [], moved = []\<rparr>, [1]) []) =
     Inr (\<lparr>created = [], renamed = [\<lparr>item_from = 1, item_to = 6\<rparr>], deleted = [],
           moved = []\<rparr>, [])
   \<and> renamed (projr (fst named_example)) = []
   \<and> moved (projr (fst named_example)) =
       [\<lparr>moved_name = ''users'', schemaFrom = ''legacy'', schemaTo = ''app''\<rparr>]"
  using rename_pair_moved_or_renamed [where orc = "scripted [1]" and log = "[]" and c = 1
      and pool = "[2]" and entity = Table and d = "\<lparr>item_from = 2, item_to = 1\<rparr>"
      and heap = example_heap
      and res = "\<lparr>created = [], renamed = [], deleted = [], moved = []\<rparr>"
      and new = "[1, 6]" and missing = "[2, 5]" and ?log0.0 = "[]"
      and res' = "projr (fst named_example)" and log' = "snd named_example"]
    rename_pair_moved_or_renamed [where orc = "scripted [1]" and log = "[]" and c = 6
      and pool = "[1]" and entity = Table and d = "\<lparr>item_from = 1, item_to = 6\<rparr>"
      and heap = example_heap
      and res = "\<lparr>created = [], renamed = [], deleted = [], moved = []\<rparr>"
      and new = "[1, 6]" and missing = "[2, 5]" and ?log0.0 = "[]"
      and res' = "projr (fst named_example)" and log' = "snd named_example"]
  by (simp add: named_example_eq [unfolded named_example_def] named_example_eq added_def
      scripted_def options_def example_heap_def orElse_def falsy_def
      delete_and_compact_def delete_index_def filter_Boolean_def)

text \<open>
  Claim C4. Within one resolver call on a missing set without repetitions: after a rename
  answer, no later prompt of the call offers the missing entity of that answer again, and
  the entity is not among \<^verbatim>\<open>deleted\<close> when the call returns; and when the answers are
  chosen from the offered options, no missing entity is the source of two rename answers.
\<close>

theorem consumed_entity_not_offered_again:
  assumes "distinct missing"
  shows "(promptColumnsConflicts orc tableName new missing log = (out, log') \<longrightarrow>
            never_reoffered (added log log')
          \<and> (case out of Inl e \<Rightarrow> True
              | Inr res \<Rightarrow> list_all (\<lambda>d. item_from d \<notin> set (deleted res))
                            (rename_answers (added log log')))
          \<and> (chosen_from_offered (added log log') \<longrightarrow>
               distinct (map item_from (rename_answers (added log log')))))
       \<and> (promptSchemasConflict orc new missing log = (out, log') \<longrightarrow>
            never_reoffered (added log log')
          \<and> (case out of Inl e \<Rightarrow> True
              | Inr res \<Rightarrow> list_all (\<lambda>d. item_from d \<notin> set (deleted res))
                            (rename_answers (added log log')))
          \<and> (chosen_from_offered (added log log') \<longrightarrow>
               distinct (map item_from (rename_answers (added log log')))))
       \<and> (promptNamedWithSchemasConflict orc heap new missing entity log = (outm, log') \<longrightarrow>
            never_reoffered (added log log')
          \<and> (case outm of Inl e \<Rightarrow> True
              | Inr res \<Rightarrow> list_all (\<lambda>d. item_from d \<notin> set (deleted res))
                            (rename_answers (added log log')))
          \<and> (chosen_from_offered (added log log') \<longrightarrow>
               distinct (map item_from (rename_answers (added log log')))))"
proof -
  have *: "never_reoffered (added log log')
          \<and> (chosen_from_offered (added log log') \<longrightarrow>
               distinct (map item_from (rename_answers (added log log'))))"
    if "\<exists>tr. log' = log @ tr \<and> pools_follow missing tr" for log' :: "'a Interaction list"
    using that assms pools_follow_never_reoffered pools_follow_matched_once by fastforce
  have **: "list_all (\<lambda>d. item_from d \<notin> set dl) (rename_answers (added log log'))"
    if "\<exists>tr. log' = log @ tr \<and> dl = final_pool missing (rename_answers tr)"
    for log' :: "'a Interaction list" and dl
    using that assms final_pool_consumed [of missing] by (auto simp: list_all_iff)
  show ?thesis
  proof (intro conjI impI)
    assume r: "promptColumnsConflicts orc tableName new missing log = (out, log')"
    from * promptColumnsConflicts_pools [OF r]
    show "never_reoffered (added log log')" by blast
    show "case out of Inl e \<Rightarrow> True
              | Inr res \<Rightarrow> list_all (\<lambda>d. item_from d \<notin> set (deleted res))
                            (rename_answers (added log log'))"
    proof (cases out)
      case (Inr res)
      with r promptColumnsConflicts_ok [of orc tableName new missing log res log']
        ** [of log' "deleted res"] show ?thesis by auto
    qed simp
    assume "chosen_from_offered (added log log')"
    with * promptColumnsConflicts_pools [OF r]
    show "distinct (map item_from (rename_answers (added log log')))" by blast
  next
    assume r: "promptSchemasConflict orc new missing log = (out, log')"
    from * promptSchemasConflict_pools [OF r]
    show "never_reoffered (added log log')" by blast
    show "case out of Inl e \<Rightarrow> True
              | Inr res \<Rightarrow> list_all (\<lambda>d. item_from d \<notin> set (deleted res))
                            (rename_answers (added log log'))"
    proof (cases out)
      case (Inr res)
      with r promptSchemasConflict_ok [of orc new missing log res log']
        ** [of log' "deleted res"] show ?thesis by auto
    qed simp
    assume "chosen_from_offered (added log log')"
    with * promptSchemasConflict_pools [OF r]
    show "distinct (map item_from (rename_answers (added log log')))" by blast
  next
    assume r: "promptNamedWithSchemasConflict orc heap new missing entity log = (outm, log')"
    from * promptNamedWithSchemasConflict_pools [OF r]
    show "never_reoffered (added log log')" by blast
    show "case outm of Inl e \<Rightarrow> True
              | Inr res \<Rightarrow> list_all (\<lambda>d. item_from d \<notin> set (deleted res))
                            (rename_answers (added log log'))"
    proof (cases outm)
      case (Inr res)
      with r promptNamedWithSchemasConflict_ok [of orc heap new missing entity log res log']
        ** [of log' "deleted res"] show ?thesis by auto
    qed simp
    assume "chosen_from_offered (added log log')"
    with * promptNamedWithSchemasConflict_pools [OF r]
    show "distinct (map item_from (rename_answers (added log log')))" by blast
  qed
qed

theorem consumed_entity_not_offered_again_witness:
  "distinct [10, 11::nat]
   \<and> never_reoffered (added [] (snd columns_example))
   \<and> 10 \<notin> set (deleted (projr (fst columns_example)))
   \<and> distinct (map item_from (rename_answers (added [] (snd columns_example))))
   \<and> never_reoffered (added [] (snd schemas_example))
   \<and> distinct (map item_from (rename_answers (added [] (snd schemas_example))))
   \<and> distinct [2, 5::nat]
   \<and> never_reoffered (added [] (snd named_example))
   \<and> 2 \<notin> set (deleted (projr (fst named_example)))
   \<and> distinct (map item_from (rename_answers (added [] (snd named_example))))"
  using consumed_entity_not_offered_again [of "[10, 11]" "scripted [1, 0]" "''users''" "[1, 2]" "[]"
      "fst columns_example" "snd columns_example" example_heap Table "fst named_example"]
    consumed_entity_not_offered_again [of "[10, 11]" "scripted [1, 0]" "''users''" "[1, 2]" "[]"
      "fst schemas_example" "snd schemas_example" example_heap Table "fst named_example"]
    consumed_entity_not_offered_again [of "[2, 5]" "scripted [1, 0]" "''users''" "[1, 6]" "[]"
      "fst columns_example" "snd named_example" example_heap Table "fst named_example"]
  by (simp add: columns_example_eq schemas_example_eq named_example_eq added_def)

text \<open>
  Claim C5. When a resolver call returns, \<^verbatim>\<open>deleted\<close> is the missing set with, for
  each rename answer of the call in turn, the first remaining occurrence of its source
  taken out; on a missing set without repetitions that is: the entities of the missing set
  that are the source of no rename answer, in their original order.
\<close>

theorem deleted_is_unconsumed_pool:
  "(promptColumnsConflicts orc tableName new missing log = (Inr res, log') \<longrightarrow>
      deleted res = final_pool missing (rename_answers (added log log'))
    \<and> (distinct missing \<longrightarrow>
         deleted res = filter (\<lambda>x. x \<notin> item_from ` set (rename_answers (added log log'))) missing))
 \<and> (promptSchemasConflict orc new missing log = (Inr res, log') \<longrightarrow>
      deleted res = final_pool missing (rename_answers (added log log'))
    \<and> (distinct missing \<longrightarrow>
         deleted res = filter (\<lambda>x. x \<notin> item_from ` set (rename_answers (added log log'))) missing))
 \<and> (promptNamedWithSchemasConflict orc heap new missing entity log = (Inr resm, log') \<longrightarrow>
      deleted resm = final_pool missing (rename_answers (added log log'))
    \<and> (distinct missing \<longrightarrow>
         deleted resm = filter (\<lambda>x. x \<notin> item_from ` set (rename_answers (added log log'))) missing))"
  using promptColumnsConflicts_ok [of orc tableName new missing log res log']
    promptSchemasConflict_ok [of orc new missing log res log']
    promptNamedWithSchemasConflict_ok [of orc heap new missing entity log resm log']
    final_pool_distinct [of missing]
  by (intro conjI impI) auto

theorem deleted_is_unconsumed_pool_witness:
  "deleted (projr (fst columns_example)) = [11]
   \<and> deleted (projr (fst columns_example)) =
       filter (\<lambda>x. x \<notin> item_from ` set (rename_answers (added [] (snd columns_example)))) [10, 11]
   \<and> deleted (projr (fst schemas_example)) =
       filter (\<lambda>x. x \<notin> item_from ` set (rename_answers (added [] (snd schemas_example)))) [10, 11]
   \<and> deleted (projr (fst named_example)) =
       filter (\<lambda>x. x \<notin> item_from ` set (rename_answers (added [] (snd named_example)))) [2, 5]"
  using deleted_is_unconsumed_pool [of "scripted [1, 0]" "''users''" "[1, 2]" "[10, 11]" "[]"
      "projr (fst columns_example)" "snd columns_example" example_heap Table
      "projr (fst named_example)"]
    deleted_is_unconsumed_pool [of "scripted [1, 0]" "''users''" "[1, 2]" "[10, 11]" "[]"
      "projr (fst schemas_example)" "snd schemas_example" example_heap Table
      "projr (fst named_example)"]
    deleted_is_unconsumed_pool [of "scripted [1, 0]" "''users''" "[1, 6]" "[2, 5]" "[]"
      "projr (fst columns_example)" "snd named_example" example_heap Table
      "projr (fst named_example)"]
  by (simp add: columns_example_eq schemas_example_eq named_example_eq added_def)

text \<open>
  Claim C6 fails on the code. Table 4 (\<^verbatim>\<open>accounts\<close>, schema \<^verbatim>\<open>'public'\<close>) is new,
  table 5 (\<^verbatim>\<open>users\<close>, schema the empty string) is missing, and the oracle takes the
  offered rename. Both schemas are the default one, and the entry itself is written with
  \<^verbatim>\<open>|| 'public'\<close>; the test before it compares the two strings as they are, so a
  \<^verbatim>\<open>moved\<close> entry from \<^verbatim>\<open>public\<close> to \<^verbatim>\<open>public\<close> is produced.
\<close>

theorem default_schema_spellings_give_moved:
  "fst (promptNamedWithSchemasConflict (scripted [1]) example_heap [4] [5] Table []) =
     Inr \<lparr>created = [], renamed = [\<lparr>item_from = 5, item_to = 4\<rparr>], deleted = [],
          moved = [\<lparr>moved_name = ''users'', schemaFrom = ''public'', schemaTo = ''public''\<rparr>]\<rparr>"
  by (simp add: eval_defs)

text \<open>
  Claim C10, as the code has it. When the source of a rename answer is not in the pool
  (by identity), the pool stays as it is and the pair is recorded as for any rename answer:
  appended to \<^verbatim>\<open>renamed\<close> in \<^verbatim>\<open>promptColumnsConflicts\<close> and
  \<^verbatim>\<open>promptSchemasConflict\<close>; in \<^verbatim>\<open>promptNamedWithSchemasConflict\<close> appended to
  \<^verbatim>\<open>renamed\<close> when the names differ and to \<^verbatim>\<open>moved\<close> when the schemas differ.
  When the answer is one of the offered options, its source is in the pool and the pool
  loses exactly that one element. Every entity of the missing set that is the source of no
  rename answer of the call, by identity, is reported in \<^verbatim>\<open>deleted\<close>.
\<close>

theorem answer_outside_pool:
  "(orc log (ResolveColumnSelect tableName c (options c pool)) = Submitted (Rename d)
      \<and> item_from d \<notin> set pool \<longrightarrow>
        fst (promptColumnsBody orc tableName c (res, pool) log) =
          Inr (res\<lparr>renamed := renamed res @ [d]\<rparr>, pool))
 \<and> (orc log (ResolveSchemasSelect c (options c pool)) = Submitted (Rename d)
      \<and> item_from d \<notin> set pool \<longrightarrow>
        fst (promptSchemasBody orc c (res, pool) log) =
          Inr (res\<lparr>renamed := renamed res @ [d]\<rparr>, pool))
 \<and> (orc log (ResolveSelect c (options c pool) entity) = Submitted (Rename d)
      \<and> item_from d \<notin> set pool \<longrightarrow>
        (\<exists>resm'. fst (promptNamedWithSchemasBody orc heap entity c (resm, pool) log) =
                    Inr (resm', pool)
           \<and> renamed resm' = renamed resm @
                (if name (heap (item_from d)) \<noteq> name (heap (item_to d)) then [d] else [])
           \<and> moved resm' = moved resm @
                (if schema (heap (item_from d)) \<noteq> schema (heap (item_to d))
                 then [\<lparr>moved_name = name (heap (item_from d)),
                        schemaFrom = orElse (schema (heap (item_from d))) ''public'',
                        schemaTo = orElse (schema (heap (item_to d))) ''public''\<rparr>]
                 else [])))
 \<and> (Rename d \<in> set (options c pool) \<longrightarrow>
        item_from d \<in> set pool
      \<and> length (delete_and_compact pool (item_from d)) + 1 = length pool
      \<and> delete_and_compact pool (item_from d) = remove1 (item_from d) pool)
 \<and> (promptColumnsConflicts orc tableName new missing log = (Inr res', log')
      \<and> x \<in> set missing \<and> x \<notin> item_from ` set (rename_answers (added log log')) \<longrightarrow>
        x \<in> set (deleted res'))
 \<and> (promptSchemasConflict orc new missing log = (Inr res', log')
      \<and> x \<in> set missing \<and> x \<notin> item_from ` set (rename_answers (added log log')) \<longrightarrow>
        x \<in> set (deleted res'))
 \<and> (promptNamedWithSchemasConflict orc heap new missing entity log = (Inr resm'', log')
      \<and> x \<in> set missing \<and> x \<notin> item_from ` set (rename_answers (added log log')) \<longrightarrow>
        x \<in> set (deleted resm''))"
proof (intro conjI impI)
  assume "orc log (ResolveColumnSelect tableName c (options c pool)) = Submitted (Rename d)
      \<and> item_from d \<notin> set pool"
  then show "fst (promptColumnsBody orc tableName c (res, pool) log) =
          Inr (res\<lparr>renamed := renamed res @ [d]\<rparr>, pool)"
    by (simp add: promptColumnsBody_def render_def options_def Let_def
        delete_and_compact_remove1 remove1_idem)
next
  assume "orc log (ResolveSchemasSelect c (options c pool)) = Submitted (Rename d)
      \<and> item_from d \<notin> set pool"
  then show "fst (promptSchemasBody orc c (res, pool) log) =
          Inr (res\<lparr>renamed := renamed res @ [d]\<rparr>, pool)"
    by (simp add: promptSchemasBody_def render_def options_def Let_def
        delete_and_compact_remove1 remove1_idem)
next
  assume "orc log (ResolveSelect c (options c pool) entity) = Submitted (Rename d)
      \<and> item_from d \<notin> set pool"
  then show "\<exists>resm'. fst (promptNamedWithSchemasBody orc heap entity c (resm, pool) log) =
                    Inr (resm', pool)
           \<and> renamed resm' = renamed resm @
                (if name (heap (item_from d)) \<noteq> name (heap (item_to d)) then [d] else [])
           \<and> moved resm' = moved resm @
                (if schema (heap (item_from d)) \<noteq> schema (heap (item_to d))
                 then [\<lparr>moved_name = name (heap (item_from d)),
                        schemaFrom = orElse (schema (heap (item_from d))) ''public'',
                        schemaTo = orElse (schema (heap (item_to d))) ''public''\<rparr>]
                 else [])"
    by (simp add: promptNamedWithSchemasBody_def render_def options_def Let_def
        delete_and_compact_remove1 remove1_idem)
next
  assume o: "Rename d \<in> set (options c pool)"
  from offered_rename_source [OF o] show in_pool: "item_from d \<in> set pool" by simp
  then have "0 < length pool" by (rule length_pos_if_in_set)
  with in_pool show "length (delete_and_compact pool (item_from d)) + 1 = length pool"
    by (simp add: delete_and_compact_remove1 length_remove1)
  show "delete_and_compact pool (item_from d) = remove1 (item_from d) pool"
    by (rule delete_and_compact_remove1)
next
  assume "promptColumnsConflicts orc tableName new missing log = (Inr res', log')
      \<and> x \<in> set missing \<and> x \<notin> item_from ` set (rename_answers (added log log'))"
  with promptColumnsConflicts_ok [of orc tableName new missing log res' log']
  show "x \<in> set (deleted res')" by (auto simp: final_pool_keeps)
next
  assume "promptSchemasConflict orc new missing log = (Inr res', log')
      \<and> x \<in> set missing \<and> x \<notin> item_from ` set (rename_answers (added log log'))"
  with promptSchemasConflict_ok [of orc new missing log res' log']
  show "x \<in> set (deleted res')" by (auto simp: final_pool_keeps)
next
  assume "promptNamedWithSchemasConflict orc heap new missing entity log = (Inr resm'', log')
      \<and> x \<in> set missing \<and> x \<notin> item_from ` set (rename_answers (added log log'))"
  with promptNamedWithSchemasConflict_ok [of orc heap new missing entity log resm'' log']
  show "x \<in> set (deleted resm'')" by (auto simp: final_pool_keeps)
qed

theorem answer_outside_pool_witness:
  "fst (promptColumnsBody copy_oracle ''users'' 1 (\<lparr>created = [], renamed = [], deleted = []\<rparr>, [2]) []) =
     Inr (\<lparr>created = [], renamed = [\<lparr>item_from = 3, item_to = 1\<rparr>], deleted = []\<rparr>, [2])
   \<and> fst (promptSchemasBody copy_oracle 1 (\<lparr>created = [], renamed = [], deleted = []\<rparr>, [2]) []) =
     Inr (\<lparr>created = [], renamed = [\<lparr>item_from = 3, item_to = 1\<rparr>], deleted = []\<rparr>, [2])
   \<and> snd (projr (fst (promptNamedWithSchemasBody copy_oracle example_heap Table 1
          (\<lparr>created = [], renamed = [], deleted = [], moved = []\<rparr>, [2]) []))) = [2]
   \<and> length (delete_and_compact [2::nat] 2) + 1 = length [2::nat]
   \<and> 2 \<in> set (deleted (projr (fst (promptColumnsConflicts copy_oracle ''users'' [1] [2] []))))
   \<and> 2 \<in> set (deleted (projr (fst (promptSchemasConflict copy_oracle [1] [2] []))))
   \<and> 2 \<in> set (deleted (projr (fst (promptNamedWithSchemasConflict copy_oracle example_heap [1] [2] Table []))))"
  using answer_outside_pool [where orc = copy_oracle and log = "[]" and tableName = "''users''"
      and c = 1 and pool = "[2]" and d = "\<lparr>item_from = 3, item_to = 1\<rparr>"
      and res = "\<lparr>created = [], renamed = [], deleted = []\<rparr>" and entity = Table and heap = example_heap
      and resm = "\<lparr>created = [], renamed = [], deleted = [], moved = []\<rparr>"
      and new = "[1]" and missing = "[2]" and x = 2
      and res' = "projr (fst (promptColumnsConflicts copy_oracle ''users'' [1] [2] []))"
      and log' = "snd (promptColumnsConflicts copy_oracle ''users'' [1] [2] [])"
      and resm'' = "projr (fst (promptNamedWithSchemasConflict copy_oracle example_heap [1] [2] Table []))"]
    answer_outside_pool [where orc = copy_oracle and log = "[]" and tableName = "''users''"
      and c = 1 and pool = "[2]" and d = "\<lparr>item_from = 3, item_to = 1\<rparr>"
      and res = "\<lparr>created = [], renamed = [], deleted = []\<rparr>" and entity = Table and heap = example_heap
      and resm = "\<lparr>created = [], renamed = [], deleted = [], moved = []\<rparr>"
      and new = "[1]" and missing = "[2]" and x = 2
      and res' = "projr (fst (promptSchemasConflict copy_oracle [1] [2] []))"
      and log' = "snd (promptSchemasConflict copy_oracle [1] [2] [])"
      and resm'' = "projr (fst (promptNamedWithSchemasConflict copy_oracle example_heap [1] [2] Table []))"]
    answer_outside_pool [where orc = copy_oracle and log = "[]" and tableName = "''users''"
      and c = 1 and pool = "[2]" and d = "\<lparr>item_from = 3, item_to = 1\<rparr>"
      and res = "\<lparr>created = [], renamed = [], deleted = []\<rparr>" and entity = Table and heap = example_heap
      and resm = "\<lparr>created = [], renamed = [], deleted = [], moved = []\<rparr>"
      and new = "[1]" and missing = "[2]" and x = 2
      and res' = "projr (fst (promptColumnsConflicts copy_oracle ''users'' [1] [2] []))"
      and log' = "snd (promptNamedWithSchemasConflict copy_oracle example_heap [1] [2] Table [])"
      and resm'' = "projr (fst (promptNamedWithSchemasConflict copy_oracle example_heap [1] [2] Table []))"]
    answer_outside_pool [where orc = copy_oracle and log = "[]" and tableName = "''users''"
      and c = 1 and pool = "[2]" and d = "\<lparr>item_from = 2, item_to = 1\<rparr>"
      and res = "\<lparr>created = [], renamed = [], deleted = []\<rparr>" and entity = Table and heap = example_heap
      and resm = "\<lparr>created = [], renamed = [], deleted = [], moved = []\<rparr>"
      and new = "[1]" and missing = "[2]" and x = 2
      and res' = "projr (fst (promptColumnsConflicts copy_oracle ''users'' [1] [2] []))"
      and log' = "snd (promptColumnsConflicts copy_oracle ''users'' [1] [2] [])"
      and resm'' = "projr (fst (promptNamedWithSchemasConflict copy_oracle example_heap [1] [2] Table []))"]
  by (simp add: copy_oracle_def eval_defs)

text \<open>
  Claim C10 as stated fails for \<^verbatim>\<open>promptNamedWithSchemasConflict\<close>. Objects 2 and 3
  have equal fields and are two objects; 2 is in the pool and the oracle answers with a
  rename from 3. The pool keeps 2, which is reported deleted, and the pair is not recorded
  in \<^verbatim>\<open>renamed\<close>: the names of 3 and of the candidate are the same, so it goes to
  \<^verbatim>\<open>moved\<close> only.
\<close>

theorem answer_outside_pool_not_renamed:
  "promptNamedWithSchemasConflict copy_oracle example_heap [1] [2] Table [] =
     (Inr \<lparr>created = [], renamed = [], deleted = [2],
           moved = [\<lparr>moved_name = ''users'', schemaFrom = ''legacy'', schemaTo = ''app''\<rparr>]\<rparr>,
      [(ResolveSelect 1 [Plain 1, Rename \<lparr>item_from = 2, item_to = 1\<rparr>] Table,
        Submitted (Rename \<lparr>item_from = 3, item_to = 1\<rparr>))])
   \<and> example_heap 3 = example_heap 2 \<and> (3::nat) \<noteq> 2"
  by (simp add: copy_oracle_def eval_defs)

section \<open>The writer, the journal builder and the commands: properties\<close>

text \<open>
  Claim C7, as the code has it. A call of \<^verbatim>\<open>writeResult\<close> with no statements and
  type \<^verbatim>\<open>'none'\<close> leaves the migration units of the out folder as they are: no
  directory is created, and no snapshot or statement file is written; the only change it
  can make to the out folder is to write \<^verbatim>\<open>migrations.js\<close>, when \<^verbatim>\<open>bundle\<close> is
  set. When \<^verbatim>\<open>bundle\<close> is not set, or the out folder exists and \<^verbatim>\<open>migrations.js\<close>
  is not a directory, the call returns and the last thing it has printed is the line that
  there are no schema changes. When \<^verbatim>\<open>bundle\<close> is set and the out folder does not
  exist or \<^verbatim>\<open>migrations.js\<close> is a directory, the call throws from the bundle block,
  which stands before the report: it has printed the schema view and nothing else.
\<close>

theorem no_changes_writes_no_unit:
  assumes "migration_type args = NoType" and "sqlStatements args = []"
  shows "units (snd (writeResult env args w)) = units w
       \<and> (folder (snd (writeResult env args w)) = folder w
          \<or> (bundled args \<and> (\<exists>es js. folder w = Some es
               \<and> folder (snd (writeResult env args w)) =
                   Some (AList.update ''migrations.js'' (File js) es))))
       \<and> (\<not> bundled args \<or>
            (\<exists>es. folder w = Some es \<and> \<not> is_directory (map_of es ''migrations.js'')) \<longrightarrow>
            fst (writeResult env args w) = Inr ()
          \<and> last (console (snd (writeResult env args w))) = NoSchemaChanges)
       \<and> (bundled args \<and> folder w = None \<longrightarrow>
            fst (writeResult env args w) = Inl ENOENT
          \<and> console (snd (writeResult env args w)) =
              console w @ [SchemaView (schema_view env (cur args))])
       \<and> (bundled args \<and> folder w = Some es' \<and> is_directory (map_of es' ''migrations.js'') \<longrightarrow>
            fst (writeResult env args w) = Inl EISDIR
          \<and> console (snd (writeResult env args w)) =
              console w @ [SchemaView (schema_view env (cur args))])"
proof -
  let ?w1 = "w\<lparr>console := console w @ [SchemaView (schema_view env (cur args))]\<rparr>"
  show ?thesis
  proof (cases "bundled args")
    case False
    with assms show ?thesis
      by (simp add: writeResult_def writeResult_none_def io_bind_def io_return_def print_def
          units_def)
  next
    case True
    show ?thesis
    proof (cases "\<exists>es. folder w = Some es \<and> \<not> is_directory (map_of es ''migrations.js'')")
      case ok: True
      then obtain es where es: "folder ?w1 = Some es"
        "\<not> is_directory (map_of es ''migrations.js'')" by auto
      have u: "unit_directories (AList.update ''migrations.js''
          (File (manifest (date_millis_of env)
             (filter (\<lambda>n. is_directory (map_of es n)) (sort (map fst es))))) es)
        = unit_directories es"
        using es(2) by (rule unit_directories_update_file)
      from assms True es ok u write_migrations_js_ok [OF es, of env] show ?thesis
        by (auto simp: writeResult_def writeResult_none_def io_bind_def io_return_def print_def
            units_def is_directory_def)
    next
      case bad: False
      show ?thesis
      proof (cases "folder w")
        case None
        then have "write_migrations_js env ?w1 = (Inl ENOENT, ?w1)"
          by (intro write_migrations_js_fails(1)) simp
        with assms True bad None show ?thesis
          by (simp add: writeResult_def writeResult_none_def io_bind_def io_return_def print_def
              units_def)
      next
        case (Some es)
        with bad have "is_directory (map_of es ''migrations.js'')" by simp
        with Some have "write_migrations_js env ?w1 = (Inl EISDIR, ?w1)"
          by (intro write_migrations_js_fails(2)) simp_all
        with assms True bad Some show ?thesis
          by (simp add: writeResult_def writeResult_none_def io_bind_def io_return_def print_def
              units_def)
      qed
    qed
  qed
qed

theorem no_changes_writes_no_unit_witness:
  "units (snd (writeResult example_env no_changes_args example_store)) = units example_store
   \<and> fst (writeResult example_env no_changes_args example_store) = Inr ()
   \<and> last (console (snd (writeResult example_env no_changes_args example_store))) = NoSchemaChanges
   \<and> units (snd (writeResult example_env no_changes_args missing_folder)) = units missing_folder
   \<and> fst (writeResult example_env no_changes_args missing_folder) = Inl ENOENT
   \<and> console (snd (writeResult example_env no_changes_args missing_folder)) = [SchemaView ''schema'']
   \<and> fst (writeResult example_env no_changes_args blocked_store) = Inl EISDIR"
proof -
  have args: "migration_type no_changes_args = NoType" "sqlStatements no_changes_args = []"
    and b: "bundled no_changes_args"
    and v: "schema_view example_env (cur no_changes_args) = ''schema''"
    by (simp_all add: no_changes_args_def example_env_def)
  have ok: "\<exists>es. folder example_store = Some es \<and> \<not> is_directory (map_of es ''migrations.js'')"
    by (simp add: example_store_def is_directory_def)
  have none: "folder missing_folder = None" "console missing_folder = []"
    by (simp_all add: missing_folder_def)
  have dir: "folder blocked_store = Some (the (folder blocked_store))"
    "is_directory (map_of (the (folder blocked_store)) ''migrations.js'')"
    by (simp_all add: blocked_store_def is_directory_def)
  from no_changes_writes_no_unit [OF args, where env = example_env and w = example_store] ok
  have "units (snd (writeResult example_env no_changes_args example_store)) = units example_store
   \<and> fst (writeResult example_env no_changes_args example_store) = Inr ()
   \<and> last (console (snd (writeResult example_env no_changes_args example_store))) = NoSchemaChanges"
    by blast
  moreover
  from no_changes_writes_no_unit [OF args, where env = example_env and w = missing_folder] b
    none v
  have "units (snd (writeResult example_env no_changes_args missing_folder)) = units missing_folder
   \<and> fst (writeResult example_env no_changes_args missing_folder) = Inl ENOENT
   \<and> console (snd (writeResult example_env no_changes_args missing_folder)) = [SchemaView ''schema'']"
    by simp
  moreover
  from no_changes_writes_no_unit [OF args, where env = example_env and w = blocked_store
      and es' = "the (folder blocked_store)"] b dir
  have "fst (writeResult example_env no_changes_args blocked_store) = Inl EISDIR"
    by blast
  ultimately show ?thesis by simp
qed

text \<open>
  Claim C7 as stated fails where it says that the no-op outcome is reported for every such
  call: with \<^verbatim>\<open>bundle\<close> set, on an out folder that does not exist and on one where
  \<^verbatim>\<open>migrations.js\<close> is a directory, the call throws and has printed the schema view
  only.
\<close>

theorem no_changes_not_reported:
  "writeResult example_env no_changes_args missing_folder =
     (Inl ENOENT, missing_folder\<lparr>console := [SchemaView ''schema'']\<rparr>)
   \<and> writeResult example_env no_changes_args blocked_store =
     (Inl EISDIR, blocked_store\<lparr>console := [SchemaView ''schema'']\<rparr>)
   \<and> NoSchemaChanges \<notin> set (console (snd (writeResult example_env no_changes_args missing_folder)))
   \<and> NoSchemaChanges \<notin> set (console (snd (writeResult example_env no_changes_args blocked_store)))"
proof -
  have m: "write_migrations_js example_env (missing_folder\<lparr>console := [SchemaView ''schema'']\<rparr>)
      = (Inl ENOENT, missing_folder\<lparr>console := [SchemaView ''schema'']\<rparr>)"
    by (intro write_migrations_js_fails(1)) (simp add: missing_folder_def)
  have b: "write_migrations_js example_env (blocked_store\<lparr>console := [SchemaView ''schema'']\<rparr>)
      = (Inl EISDIR, blocked_store\<lparr>console := [SchemaView ''schema'']\<rparr>)"
    by (intro write_migrations_js_fails(2) [where es = "the (folder blocked_store)"])
      (simp_all add: blocked_store_def is_directory_def)
  have "writeResult example_env no_changes_args missing_folder =
     (Inl ENOENT, missing_folder\<lparr>console := [SchemaView ''schema'']\<rparr>)"
    using m
    by (simp add: writeResult_def writeResult_none_def io_bind_def io_return_def print_def
        no_changes_args_def example_env_def missing_folder_def)
  moreover have "writeResult example_env no_changes_args blocked_store =
     (Inl EISDIR, blocked_store\<lparr>console := [SchemaView ''schema'']\<rparr>)"
    using b
    by (simp add: writeResult_def writeResult_none_def io_bind_def io_return_def print_def
        no_changes_args_def example_env_def blocked_store_def)
  ultimately show ?thesis by simp
qed




text \<open>
  Claim C9. When, in a run of one of the three generate commands, the oracle answers a
  prompt of any resolver with an abort, the process exits with code 1; the aborted prompt
  is the last interaction of the run and the first abort of it; and the out folder is as it
  was before the command: no migration unit is written.
\<close>

theorem abort_ends_the_command:
  "(\<not> no_abort (added (prompts w)
        (prompts (snd (prepareAndMigratePg env orc heap cur_schema custom_schema differ config w)))) \<longrightarrow>
      fst (prepareAndMigratePg env orc heap cur_schema custom_schema differ config w)
        = Inl (ProcessExit 1)
    \<and> ends_in_abort (added (prompts w)
        (prompts (snd (prepareAndMigratePg env orc heap cur_schema custom_schema differ config w))))
    \<and> folder (snd (prepareAndMigratePg env orc heap cur_schema custom_schema differ config w))
        = folder w)
 \<and> (\<not> no_abort (added (prompts w)
        (prompts (snd (prepareAndMigrateMysql env orc heap cur_schema custom_schema differ config w)))) \<longrightarrow>
      fst (prepareAndMigrateMysql env orc heap cur_schema custom_schema differ config w)
        = Inl (ProcessExit 1)
    \<and> ends_in_abort (added (prompts w)
        (prompts (snd (prepareAndMigrateMysql env orc heap cur_schema custom_schema differ config w))))
    \<and> folder (snd (prepareAndMigrateMysql env orc heap cur_schema custom_schema differ config w))
        = folder w)
 \<and> (\<not> no_abort (added (prompts w)
        (prompts (snd (prepareAndMigrateSqlite env orc heap cur_schema custom_schema differ config w)))) \<longrightarrow>
      fst (prepareAndMigrateSqlite env orc heap cur_schema custom_schema differ config w)
        = Inl (ProcessExit 1)
    \<and> ends_in_abort (added (prompts w)
        (prompts (snd (prepareAndMigrateSqlite env orc heap cur_schema custom_schema differ config w))))
    \<and> folder (snd (prepareAndMigrateSqlite env orc heap cur_schema custom_schema differ config w))
        = folder w)"
proof (intro conjI impI)
  assume "\<not> no_abort (added (prompts w)
        (prompts (snd (prepareAndMigratePg env orc heap cur_schema custom_schema differ config w))))"
  from command_abort [of "prepareAndMigratePg env orc heap cur_schema custom_schema differ config",
      OF prepareAndMigratePg_def this]
  show "fst (prepareAndMigratePg env orc heap cur_schema custom_schema differ config w)
        = Inl (ProcessExit 1)"
    and "ends_in_abort (added (prompts w)
        (prompts (snd (prepareAndMigratePg env orc heap cur_schema custom_schema differ config w))))"
    and "folder (snd (prepareAndMigratePg env orc heap cur_schema custom_schema differ config w))
        = folder w"
    by simp_all
next
  assume "\<not> no_abort (added (prompts w)
        (prompts (snd (prepareAndMigrateMysql env orc heap cur_schema custom_schema differ config w))))"
  from command_abort [of "prepareAndMigrateMysql env orc heap cur_schema custom_schema differ config",
      OF prepareAndMigrateMysql_def this]
  show "fst (prepareAndMigrateMysql env orc heap cur_schema custom_schema differ config w)
        = Inl (ProcessExit 1)"
    and "ends_in_abort (added (prompts w)
        (prompts (snd (prepareAndMigrateMysql env orc heap cur_schema custom_schema differ config w))))"
    and "folder (snd (prepareAndMigrateMysql env orc heap cur_schema custom_schema differ config w))
        = folder w"
    by simp_all
next
  assume "\<not> no_abort (added (prompts w)
        (prompts (snd (prepareAndMigrateSqlite env orc heap cur_schema custom_schema differ config w))))"
  from command_abort [of "prepareAndMigrateSqlite env orc heap cur_schema custom_schema differ config",
      OF prepareAndMigrateSqlite_def this]
  show "fst (prepareAndMigrateSqlite env orc heap cur_schema custom_schema differ config w)
        = Inl (ProcessExit 1)"
    and "ends_in_abort (added (prompts w)
        (prompts (snd (prepareAndMigrateSqlite env orc heap cur_schema custom_schema differ config w))))"
    and "folder (snd (prepareAndMigrateSqlite env orc heap cur_schema custom_schema differ config w))
        = folder w"
    by simp_all
qed

theorem abort_ends_the_command_witness:
  "fst (prepareAndMigratePg example_env aborting_script example_heap ''cur'' ''custom''
          example_differ example_config example_store) = Inl (ProcessExit 1)
   \<and> ends_in_abort (added (prompts example_store) (prompts (snd (prepareAndMigratePg example_env aborting_script example_heap ''cur'' ''custom''
          example_differ example_config example_store))))
   \<and> folder (snd (prepareAndMigratePg example_env aborting_script example_heap ''cur'' ''custom''
          example_differ example_config example_store)) = folder example_store
   \<and> fst (prepareAndMigrateMysql example_env aborting_script example_heap ''cur'' ''custom''
          example_differ example_config example_store) = Inl (ProcessExit 1)
   \<and> ends_in_abort (added (prompts example_store) (prompts (snd (prepareAndMigrateMysql example_env aborting_script example_heap ''cur'' ''custom''
          example_differ example_config example_store))))
   \<and> folder (snd (prepareAndMigrateMysql example_env aborting_script example_heap ''cur'' ''custom''
          example_differ example_config example_store)) = folder example_store
   \<and> fst (prepareAndMigrateSqlite example_env aborting_script example_heap ''cur'' ''custom''
          example_differ example_config example_store) = Inl (ProcessExit 1)
   \<and> ends_in_abort (added (prompts example_store) (prompts (snd (prepareAndMigrateSqlite example_env aborting_script example_heap ''cur'' ''custom''
          example_differ example_config example_store))))
   \<and> folder (snd (prepareAndMigrateSqlite example_env aborting_script example_heap ''cur'' ''custom''
          example_differ example_config example_store)) = folder example_store"
  using abort_ends_the_command [where w = example_store and env = example_env
      and orc = aborting_script and heap = example_heap and cur_schema = "''cur''"
      and custom_schema = "''custom''" and differ = example_differ and config = example_config]
    pg_example mysql_example sqlite_example
  by (simp add: added_def example_store_def)

end
